theory Spec2Isabelle
  imports Main "HOL-Library.AList" "HOL-Library.Word" "HOL-Library.Signed_Division"
begin

section \<open>Go values, errors and observable effects\<close>

text \<open>
  A decoded JSON document is a Go \<^verbatim>\<open>map[string]interface{}\<close>. The dynamic values that
  occur in this code are: nil, bool, float64 (every JSON number; kept as its 64 bits, the
  code never computes with one), int64 (the \<^verbatim>\<open>receivedAt\<close> stamp), string, slices and
  nested maps. A map is kept as an association list read with \<^const>\<open>map_of\<close> and written
  with \<^const>\<open>AList.update\<close>; reading a nil map behaves as reading the empty one.
\<close>

datatype gvalue =
    GNil
  | GBool bool
  | GFloat64 "64 word"
  | GInt64 int
  | GString string
  | GSlice "gvalue list"
  | GMap "(string \<times> gvalue) list"

type_synonym gmap = "(string \<times> gvalue) list"

text \<open>
  A call either returns or panics (a Go run-time panic, or \<^verbatim>\<open>log.Panicf\<close>).
\<close>

datatype 'a outcome = Returns 'a | Panics

text \<open>
  The message codes of package \<^verbatim>\<open>errors\<close> that this code raises with
  \<^verbatim>\<open>errors.Errorf\<close> (the insert arguments of a message are left out), and errors that
  come from a collaborator, known by their text only.
\<close>

datatype ecode =
    ReceiptStoreKeyNotUnique
  | ResubmissionPreventedCheckTransactionHash
  | Unauthorized
  | ReceiptStoreDisabled
  | ReceiptStoreInvalidRequestID
  | ReceiptStoreInvalidRequestMaxLimit
  | ReceiptStoreInvalidRequestBadLimit
  | ReceiptStoreInvalidRequestBadSkip
  | ReceiptStoreInvalidRequestBadSince
  | ReceiptStoreFailedQuery
  | ReceiptStoreFailedQuerySingle
  | ReceiptStoreFailedNotFound
  | ReceiptStoreSerializeResponse

datatype error = Errorf ecode | Foreign string

section \<open>The in-memory receipt list\<close>

text \<open>
  The configuration \<^verbatim>\<open>ReceiptStoreConf\<close> (declared outside the files at hand; these are
  the fields the code reads), and \<^verbatim>\<open>memoryReceipts\<close>: its configuration \<^verbatim>\<open>conf\<close> and a
  \<^verbatim>\<open>container/list\<close> of receipts, front first.
\<close>

record ReceiptStoreConf =
  MaxDocs :: int
  QueryLimit :: int
  RetryTimeoutMS :: int
  RetryInitialDelayMS :: int

record memoryReceipts =
  mconf :: ReceiptStoreConf
  receipts :: "gmap list"

text \<open>
  The two loops of \<^verbatim>\<open>GetReceipts\<close>, each walking the list from the current element with
  its counter \<open>i\<close>: the first moves past \<open>skip\<close> elements, the second appends up to
  \<open>limit\<close> elements to \<open>results\<close>.
\<close>

fun skipLoop :: "int \<Rightarrow> int \<Rightarrow> gmap list \<Rightarrow> gmap list" where
  "skipLoop i skip [] = []"
| "skipLoop i skip (e # es) = (if i < skip then skipLoop (i + 1) skip es else e # es)"

fun collectLoop :: "int \<Rightarrow> int \<Rightarrow> gmap list \<Rightarrow> gmap list \<Rightarrow> gmap list" where
  "collectLoop i limit results [] = results"
| "collectLoop i limit results (e # es) =
     (if i < limit then collectLoop (i + 1) limit (results @ [e]) es else results)"

text \<open>
  \<^verbatim>\<open>GetReceipts(skip, limit, ids)\<close> returns \<^verbatim>\<open>(nil, err)\<close>, here \<open>Inl err\<close>, or
  \<^verbatim>\<open>(&results, nil)\<close>, here \<open>Inr results\<close>: a pointer to the slice that \<^verbatim>\<open>make\<close> built,
  which is not nil even when it is empty. \<^verbatim>\<open>make([]T, 0, limit)\<close> panics at run time when
  \<open>limit\<close> is negative.
\<close>

definition memoryReceipts_GetReceipts ::
  "memoryReceipts \<Rightarrow> int \<Rightarrow> int \<Rightarrow> string list \<Rightarrow> (error + gmap list) outcome" where
  "memoryReceipts_GetReceipts m skip limit ids =
     (if length ids > 0
      then Returns (Inl (Foreign ''Memory receipts do not support id filtering''))
      else if limit < 0 then Panics
      else Returns (Inr (collectLoop 0 limit [] (skipLoop 0 skip (receipts m)))))"

text \<open>
  \<^verbatim>\<open>GetReceipt(requestID)\<close>: the first receipt whose \<^verbatim>\<open>_id\<close> is the string \<open>requestID\<close>
  (an interface value equals a string only when it holds that string), else nil.
\<close>

fun memoryReceipts_find :: "string \<Rightarrow> gmap list \<Rightarrow> gmap option" where
  "memoryReceipts_find requestID [] = None"
| "memoryReceipts_find requestID (r # rs) =
     (case map_of r ''_id'' of
        Some v \<Rightarrow> if v = GString requestID then Some r else memoryReceipts_find requestID rs
      | None \<Rightarrow> memoryReceipts_find requestID rs)"

definition memoryReceipts_GetReceipt :: "memoryReceipts \<Rightarrow> string \<Rightarrow> error + gmap option" where
  "memoryReceipts_GetReceipt m requestID = Inr (memoryReceipts_find requestID (receipts m))"

text \<open>
  \<^verbatim>\<open>AddReceipt(receipt)\<close>: drop the back element when the list is full, push to the front.
\<close>

definition memoryReceipts_AddReceipt :: "memoryReceipts \<Rightarrow> gmap \<Rightarrow> error option \<times> memoryReceipts" where
  "memoryReceipts_AddReceipt m receipt =
     (let curLen = int (length (receipts m));
          kept = (if curLen > 0 \<and> curLen \<ge> MaxDocs (mconf m) then butlast (receipts m) else receipts m)
      in (None, m\<lparr>receipts := receipt # kept\<rparr>))"

section \<open>The receipt store and its collaborators\<close>

text \<open>
  What the code observably does, in order: log lines (by level), sleeps (nanoseconds) and
  the calls it makes on its collaborators.
\<close>

datatype level = DebugLevel | InfoLevel | WarnLevel | ErrorLevel

datatype event =
    Log level
  | Sleep int
  | CallGetReceipt string
  | CallGetReceipts int int "string list" int string string string
  | CallAddReceipt string gmap bool
  | CallPostDeploy gvalue
  | CallSendReply gmap
  | CallInsert gmap

text \<open>
  The interfaces \<^verbatim>\<open>receipts.ReceiptStorePersistence\<close> and
  \<^verbatim>\<open>contractgateway.SmartContractGateway\<close> are declared outside the files at hand. An
  implementation is a record of its methods, with the signatures of the call sites, acting
  on a world \<open>'w\<close> that holds whatever the collaborators keep (the stored documents, the
  clock). The two queries read the world; \<^verbatim>\<open>AddReceipt\<close>, \<^verbatim>\<open>PostDeploy\<close> and
  \<^verbatim>\<open>SendReply\<close> may change it. A nil interface value is \<open>None\<close>. The receipt handed to
  a collaborator is taken as it is on entry: a collaborator does not write to it.
\<close>

record 'w ReceiptStorePersistence =
  GetReceipt :: "string \<Rightarrow> 'w \<Rightarrow> error + gmap option"
  GetReceipts :: "int \<Rightarrow> int \<Rightarrow> string list \<Rightarrow> int \<Rightarrow> string \<Rightarrow> string \<Rightarrow> string \<Rightarrow> 'w
                    \<Rightarrow> error + gmap list"
  AddReceipt :: "string \<Rightarrow> gmap \<Rightarrow> bool \<Rightarrow> 'w \<Rightarrow> error option \<times> 'w"

record 'w SmartContractGateway =
  PostDeploy :: "gvalue \<Rightarrow> 'w \<Rightarrow> error option \<times> 'w"
  SendReply :: "gmap \<Rightarrow> 'w \<Rightarrow> 'w"

text \<open>
  The request as the handlers read it: \<^verbatim>\<open>req.Form\<close> after \<^verbatim>\<open>ParseForm\<close> and the route
  parameter \<^verbatim>\<open>id\<close>.
\<close>

record request =
  Form :: "(string \<times> string list) list"
  paramID :: string

text \<open>
  What the code uses of the Go library and of the packages outside the files at hand:
  the clock (\<^verbatim>\<open>time.Now\<close> in nanoseconds, \<^verbatim>\<open>time.Sleep\<close>), \<^verbatim>\<open>json.Unmarshal\<close> into a map
  and into a \<^verbatim>\<open>messages.TransactionReceipt\<close> (kept as a dynamic value),
  \<^verbatim>\<open>json.MarshalIndent\<close> (its error, if any; its bytes are known as the text of the value
  it was given), \<^verbatim>\<open>time.Parse\<close> for RFC 3339 (its result in nanoseconds), the
  code and the text of a message of package \<^verbatim>\<open>errors\<close>, and the two checks of package
  \<^verbatim>\<open>auth\<close>.
\<close>

record 'w runtime =
  now :: "'w \<Rightarrow> int"
  sleep :: "int \<Rightarrow> 'w \<Rightarrow> 'w"
  unmarshal :: "string \<Rightarrow> error + gmap"
  unmarshalReceipt :: "string \<Rightarrow> error + gvalue"
  marshalIndent :: "gvalue \<Rightarrow> error option"
  parseRFC3339Nano :: "string \<Rightarrow> error + int"
  Code :: "ecode \<Rightarrow> string"
  ErrorNoCode :: "ecode \<Rightarrow> string"
  AuthListAsyncReplies :: "request \<Rightarrow> error option"
  AuthReadAsyncReplyByUUID :: "request \<Rightarrow> error option"

record 'w receiptStore =
  conf :: ReceiptStoreConf
  persistence :: "'w ReceiptStorePersistence option"
  smartContractGW :: "'w SmartContractGateway option"
  reservedIDs :: "string \<Rightarrow> bool option"

definition defaultReceiptLimit :: int where "defaultReceiptLimit = 10"
definition defaultRetryTimeout :: int where "defaultRetryTimeout = 120 * 1000"
definition defaultRetryInitialDelay :: int where "defaultRetryInitialDelay = 500"
definition defaultMaxDocs :: int where "defaultMaxDocs = 250"

text \<open>
  \<^verbatim>\<open>time.Millisecond\<close> in nanoseconds. Durations are \<^verbatim>\<open>int64\<close> nanoseconds; they are
  kept as integers, which agrees with the code as long as no product leaves 64 bits
  (292 years).
\<close>

definition Millisecond :: int where "Millisecond = 1000000"

text \<open>
  \<^verbatim>\<open>time.Duration(float64(delay) * backoffFactor)\<close> with \<^verbatim>\<open>backoffFactor = 1.1\<close>: the
  product, cut towards zero. The double nearest to 1.1 exceeds it by less than 1e-16, so for
  every delay below five days the double product and the exact one are cut to the same
  integer.
\<close>

definition backoff :: "int \<Rightarrow> int" where
  "backoff delay = (delay * 11) sdiv 10"

definition newReceiptStore ::
  "ReceiptStoreConf \<Rightarrow> 'w ReceiptStorePersistence option \<Rightarrow> 'w SmartContractGateway option
     \<Rightarrow> 'w receiptStore" where
  "newReceiptStore c p gw =
     (let c1 = (if RetryTimeoutMS c \<le> 0 then c\<lparr>RetryTimeoutMS := defaultRetryTimeout\<rparr> else c);
          c2 = (if RetryInitialDelayMS c1 \<le> 0
                then c1\<lparr>RetryInitialDelayMS := defaultRetryInitialDelay\<rparr> else c1);
          c3 = (if MaxDocs c2 \<le> 0 then c2\<lparr>MaxDocs := defaultMaxDocs\<rparr> else c2)
      in \<lparr>conf = c3, persistence = p, smartContractGW = gw, reservedIDs = Map.empty\<rparr>)"

text \<open>
  Reading a trace: the durations of its sleeps, and the number of its calls of
  \<^verbatim>\<open>AddReceipt\<close>.
\<close>

fun sleepsOf :: "event list \<Rightarrow> int list" where
  "sleepsOf [] = []"
| "sleepsOf (Sleep d # es) = d # sleepsOf es"
| "sleepsOf (e # es) = sleepsOf es"

fun addCalls :: "event list \<Rightarrow> nat" where
  "addCalls [] = 0"
| "addCalls (CallAddReceipt requestID receipt overwrite # es) = Suc (addCalls es)"
| "addCalls (e # es) = addCalls es"

text \<open>
  The events of one call of \<^verbatim>\<open>writeReceipt\<close> before its end: log lines, sleeps and calls
  of \<^verbatim>\<open>AddReceipt\<close> with the arguments of the call.
\<close>

definition writeEvent :: "string \<Rightarrow> gmap \<Rightarrow> bool \<Rightarrow> event \<Rightarrow> bool" where
  "writeEvent requestID receipt ov e =
     (case e of
        Log l \<Rightarrow> True
      | Sleep d \<Rightarrow> True
      | CallAddReceipt i rc b \<Rightarrow> i = requestID \<and> rc = receipt \<and> b = ov
      | _ \<Rightarrow> False)"

text \<open>
  \<^verbatim>\<open>extractHeaders\<close>: the \<^verbatim>\<open>headers\<close> entry when it is a map, else nil.
\<close>

definition extractHeaders :: "gmap \<Rightarrow> gmap option" where
  "extractHeaders parsedMsg =
     (case map_of parsedMsg ''headers'' of
        Some (GMap headers) \<Rightarrow> Some headers
      | _ \<Rightarrow> None)"

text \<open>
  Modelled from the spec: \<^verbatim>\<open>utils.GetMapString\<close> is called here and defined outside the
  files at hand. A field is extracted when it is present as a string; the result is the
  empty string otherwise.
\<close>

definition GetMapString :: "gmap \<Rightarrow> string \<Rightarrow> string" where
  "GetMapString genericMap key =
     (case map_of genericMap key of
        Some (GString s) \<Rightarrow> s
      | _ \<Rightarrow> [])"

text \<open>
  Modelled from the spec: the message types of package \<^verbatim>\<open>messages\<close> are constants
  declared outside the files at hand; they are written as the spec names them.
\<close>

definition MsgTypeError :: string where
  "MsgTypeError = ''error''"
definition MsgTypeTransactionSuccess :: string where
  "MsgTypeTransactionSuccess = ''transaction-success''"
definition MsgTypeTransactionFailure :: string where
  "MsgTypeTransactionFailure = ''transaction-failure''"
definition MsgTypeTransactionRedeliveryPrevented :: string where
  "MsgTypeTransactionRedeliveryPrevented = ''transaction-redelivery-prevented''"

subsection \<open>Reserving a request id\<close>

text \<open>
  \<^verbatim>\<open>reserveID\<close> returns the release closure or an error, and the store. The closure
  captures \<open>msgID\<close>; \<open>release msgID\<close> is its body. A nil \<^verbatim>\<open>persistence\<close> makes the call
  of \<^verbatim>\<open>GetReceipt\<close> panic.
\<close>

datatype releaseHandle = Release string

definition release :: "string \<Rightarrow> 'w receiptStore \<Rightarrow> 'w receiptStore" where
  "release msgID r = r\<lparr>reservedIDs := (reservedIDs r)(msgID := None)\<rparr>"

fun invoke :: "releaseHandle \<Rightarrow> 'w receiptStore \<Rightarrow> 'w receiptStore" where
  "invoke (Release msgID) r = release msgID r"

definition reserveID ::
  "'w receiptStore \<Rightarrow> string \<Rightarrow> 'w \<Rightarrow> (error + releaseHandle) outcome \<times> 'w receiptStore" where
  "reserveID r msgID w =
     (case persistence r of
        None \<Rightarrow> (Panics, r)
      | Some p \<Rightarrow>
          (case GetReceipt p msgID w of
             Inl err \<Rightarrow> (Returns (Inl err), r)
           | Inr m \<Rightarrow>
               if m \<noteq> None \<or> reservedIDs r msgID = Some True
               then (Returns (Inl (Errorf ReceiptStoreKeyNotUnique)), r)
               else (Returns (Inr (Release msgID)), r\<lparr>reservedIDs := (reservedIDs r)(msgID \<mapsto> True)\<rparr>)))"

text \<open>
  The calls that touch \<^verbatim>\<open>reservedIDs\<close>: \<^verbatim>\<open>reserveID\<close> (in the world of its moment) and
  a release closure. A sequence of them is applied from the left.
\<close>

datatype 'w storeCall = CallReserveID string 'w | CallRelease releaseHandle

fun applyCall :: "'w receiptStore \<Rightarrow> 'w storeCall \<Rightarrow> 'w receiptStore" where
  "applyCall r (CallReserveID msgID w) = snd (reserveID r msgID w)"
| "applyCall r (CallRelease h) = invoke h r"

subsection \<open>Writing a receipt\<close>

text \<open>
  How the \<^verbatim>\<open>for\<close> loop of \<^verbatim>\<open>writeReceipt\<close> is left: by \<^verbatim>\<open>break\<close>, by \<^verbatim>\<open>return err\<close>
  or by \<^verbatim>\<open>log.Panicf\<close>.
\<close>

datatype loopExit = Break | ReturnErr error | Panicf

text \<open>
  One run of the loop from its head, with the loop variables \<open>delay\<close> and \<open>attempt\<close>,
  the events so far and the world. The loop has no bound of its own: it ends when an
  attempt succeeds, when an attempt fails without \<open>overwriteAndRetry\<close>, or when an attempt
  fails after the clock has passed \<open>retryTimeout\<close>. A run that never ends has the value
  \<open>None\<close>.
\<close>

partial_function (option) writeReceiptLoop ::
  "'w runtime \<Rightarrow> 'w receiptStore \<Rightarrow> string \<Rightarrow> gmap \<Rightarrow> bool \<Rightarrow> int \<Rightarrow> int
     \<Rightarrow> int \<Rightarrow> nat \<Rightarrow> event list \<Rightarrow> 'w \<Rightarrow> (loopExit \<times> event list \<times> 'w) option" where
  "writeReceiptLoop rt r requestID receipt overwriteAndRetry startTime retryTimeout
       delay attempt tr w =
     (let w1 = (if attempt > 0 then sleep rt delay w else w);
          tr1 = (if attempt > 0 then tr @ [Log InfoLevel, Sleep delay] else tr);
          delay1 = (if attempt > 0 then backoff delay else delay);
          attempt1 = attempt + 1
      in case persistence r of
           None \<Rightarrow> Some (Panicf, tr1, w1)
         | Some p \<Rightarrow>
             (case AddReceipt p requestID receipt overwriteAndRetry w1 of
                (None, w2) \<Rightarrow>
                  Some (Break, tr1 @ [CallAddReceipt requestID receipt overwriteAndRetry,
                                      Log InfoLevel], w2)
              | (Some err, w2) \<Rightarrow>
                  if \<not> overwriteAndRetry
                  then Some (ReturnErr err,
                             tr1 @ [CallAddReceipt requestID receipt overwriteAndRetry], w2)
                  else if now rt w2 - startTime > retryTimeout
                  then Some (Panicf,
                             tr1 @ [CallAddReceipt requestID receipt overwriteAndRetry,
                                    Log ErrorLevel, Log InfoLevel], w2)
                  else writeReceiptLoop rt r requestID receipt overwriteAndRetry startTime
                         retryTimeout delay1 attempt1
                         (tr1 @ [CallAddReceipt requestID receipt overwriteAndRetry,
                                 Log ErrorLevel]) w2))"

definition writeReceipt ::
  "'w runtime \<Rightarrow> 'w receiptStore \<Rightarrow> string \<Rightarrow> gmap \<Rightarrow> bool \<Rightarrow> 'w
     \<Rightarrow> (error option outcome \<times> event list \<times> 'w) option" where
  "writeReceipt rt r requestID receipt overwriteAndRetry w =
     (let startTime = now rt w;
          delay = RetryInitialDelayMS (conf r) * Millisecond;
          retryTimeout = RetryTimeoutMS (conf r) * Millisecond
      in case writeReceiptLoop rt r requestID receipt overwriteAndRetry startTime retryTimeout
                delay 0 [] w of
           None \<Rightarrow> None
         | Some (Panicf, tr, w') \<Rightarrow> Some (Panics, tr, w')
         | Some (ReturnErr err, tr, w') \<Rightarrow> Some (Returns (Some err), tr, w')
         | Some (Break, tr, w') \<Rightarrow>
             (case smartContractGW r of
                None \<Rightarrow> Some (Returns None, tr, w')
              | Some gw \<Rightarrow>
                  Some (Returns None, tr @ [CallSendReply receipt], SendReply gw receipt w')))"

definition writeAccepted ::
  "'w runtime \<Rightarrow> 'w receiptStore \<Rightarrow> string \<Rightarrow> string \<Rightarrow> gmap \<Rightarrow> 'w
     \<Rightarrow> (error option outcome \<times> event list \<times> 'w) option" where
  "writeAccepted rt r msgID msgAck msg w =
     (let msg1 = AList.update ''receivedAt'' (GInt64 (now rt w sdiv Millisecond)) msg;
          msg2 = AList.update ''pending'' (GBool True) msg1;
          msg3 = AList.update ''msgAck'' (GString msgAck) msg2;
          msg4 = AList.update ''_id'' (GString msgID) msg3
      in writeReceipt rt r msgID msg4 False w)"


subsection \<open>Processing a reply\<close>

text \<open>
  The \<^verbatim>\<open>switch\<close> on the message type. It yields the message to store (for a prevented
  redelivery, with \<^verbatim>\<open>errorCode\<close> and \<^verbatim>\<open>errorMessage\<close> set), or nothing when
  \<^verbatim>\<open>processReply\<close> returns from inside the switch. The redelivery case calls
  \<^verbatim>\<open>r.persistence.GetReceipt\<close> without a nil test.
\<close>

definition isTerminalReceipt :: "gmap \<Rightarrow> bool" where
  "isTerminalReceipt existingReceipt =
     (let existingHeaders = (case extractHeaders existingReceipt of None \<Rightarrow> [] | Some h \<Rightarrow> h);
          msgType = GetMapString existingHeaders ''type''
      in msgType = MsgTypeTransactionFailure \<or> msgType = MsgTypeTransactionSuccess)"

definition switchMsgType ::
  "'w runtime \<Rightarrow> 'w receiptStore \<Rightarrow> gmap \<Rightarrow> string \<Rightarrow> string \<Rightarrow> 'w
     \<Rightarrow> gmap option outcome \<times> event list" where
  "switchMsgType rt r parsedMsg requestID msgType w =
     (if msgType = MsgTypeError then (Returns (Some parsedMsg), [])
      else if msgType = MsgTypeTransactionRedeliveryPrevented then
        (case persistence r of
           None \<Rightarrow> (Panics, [])
         | Some p \<Rightarrow>
             (case GetReceipt p requestID w of
                Inr (Some existingReceipt) \<Rightarrow>
                  if isTerminalReceipt existingReceipt
                  then (Returns None, [CallGetReceipt requestID, Log WarnLevel])
                  else (Returns (Some
                          (AList.update ''errorMessage''
                             (GString (ErrorNoCode rt ResubmissionPreventedCheckTransactionHash))
                             (AList.update ''errorCode''
                                (GString (Code rt ResubmissionPreventedCheckTransactionHash))
                                parsedMsg))),
                        [CallGetReceipt requestID])
              | _ \<Rightarrow>
                  (Returns (Some
                     (AList.update ''errorMessage''
                        (GString (ErrorNoCode rt ResubmissionPreventedCheckTransactionHash))
                        (AList.update ''errorCode''
                           (GString (Code rt ResubmissionPreventedCheckTransactionHash))
                           parsedMsg))),
                   [CallGetReceipt requestID])))
      else (Returns (Some parsedMsg), []))"

text \<open>
  The hand-over of a successful deployment to the gateway: errors are logged only.
\<close>

definition postDeploy ::
  "'w runtime \<Rightarrow> 'w receiptStore \<Rightarrow> string \<Rightarrow> string \<Rightarrow> string \<Rightarrow> 'w \<Rightarrow> event list \<times> 'w" where
  "postDeploy rt r msgBytes msgType contractAddr w =
     (case smartContractGW r of
        None \<Rightarrow> ([], w)
      | Some gw \<Rightarrow>
          if msgType = MsgTypeTransactionSuccess \<and> contractAddr \<noteq> [] then
            (case unmarshalReceipt rt msgBytes of
               Inr receipt \<Rightarrow>
                 (case PostDeploy gw receipt w of
                    (None, w1) \<Rightarrow> ([CallPostDeploy receipt], w1)
                  | (Some err, w1) \<Rightarrow> ([CallPostDeploy receipt, Log ErrorLevel], w1))
             | Inl err \<Rightarrow> ([Log ErrorLevel], w))
          else ([], w))"

definition processReply ::
  "'w runtime \<Rightarrow> 'w receiptStore \<Rightarrow> string \<Rightarrow> 'w \<Rightarrow> (unit outcome \<times> event list \<times> 'w) option" where
  "processReply rt r msgBytes w =
     (case unmarshal rt msgBytes of
        Inl err \<Rightarrow> Some (Returns (), [Log ErrorLevel], w)
      | Inr parsedMsg \<Rightarrow>
          (case extractHeaders parsedMsg of
             None \<Rightarrow> Some (Returns (), [Log ErrorLevel], w)
           | Some headers \<Rightarrow>
               (let requestID = GetMapString headers ''requestId'' in
                if requestID = [] then Some (Returns (), [Log ErrorLevel], w)
                else
                  (let msgType = GetMapString headers ''type'';
                       contractAddr = GetMapString parsedMsg ''contractAddress''
                   in case switchMsgType rt r parsedMsg requestID msgType w of
                        (Panics, tr) \<Rightarrow> Some (Panics, tr, w)
                      | (Returns None, tr) \<Rightarrow> Some (Returns (), tr, w)
                      | (Returns (Some parsedMsg1), tr) \<Rightarrow>
                          (case postDeploy rt r msgBytes msgType contractAddr w of
                             (tr1, w1) \<Rightarrow>
                               (let parsedMsg2 = AList.update ''receivedAt''
                                       (GInt64 (now rt w1 sdiv Millisecond)) parsedMsg1;
                                    parsedMsg3 = AList.update ''_id'' (GString requestID) parsedMsg2
                                in if requestID \<noteq> [] \<and> persistence r \<noteq> None then
                                     (case writeReceipt rt r requestID parsedMsg3 True w1 of
                                        None \<Rightarrow> None
                                      | Some (Panics, tr2, w2) \<Rightarrow>
                                          Some (Panics, tr @ Log InfoLevel # tr1 @ tr2, w2)
                                      | Some (Returns e, tr2, w2) \<Rightarrow>
                                          Some (Returns (), tr @ Log InfoLevel # tr1 @ tr2, w2))
                                   else Some (Returns (), tr @ Log InfoLevel # tr1, w1)))))))"

section \<open>The reply processor of the webhooks bridge\<close>

text \<open>
  \<^verbatim>\<open>MongoCollection\<close> as \<^verbatim>\<open>processReply\<close> uses it, and the bridge's \<^verbatim>\<open>mongo\<close> field.
\<close>

record 'w MongoCollection =
  Insert :: "gmap \<Rightarrow> 'w \<Rightarrow> error option \<times> 'w"

record 'w WebhooksBridge =
  mongo :: "'w MongoCollection option"

text \<open>
  \<^verbatim>\<open>getString\<close>: \<^verbatim>\<open>reflect.TypeOf\<close> of a nil value is nil, and \<^verbatim>\<open>Kind\<close> on it panics.
  Every call logs one line first.
\<close>

definition getString :: "gmap \<Rightarrow> string \<Rightarrow> string outcome" where
  "getString genericMap key =
     (case map_of genericMap key of
        None \<Rightarrow> Returns []
      | Some GNil \<Rightarrow> Panics
      | Some (GString s) \<Rightarrow> Returns s
      | Some _ \<Rightarrow> Returns [])"

text \<open>
  The four reads of \<^verbatim>\<open>processReply\<close> in their order: \<^verbatim>\<open>requestId\<close> (an empty one ends
  the call), \<^verbatim>\<open>reqOffset\<close>, \<^verbatim>\<open>type\<close> and the result. The value is the request id, or
  nothing when the message is dropped.
\<close>

definition readReply :: "gmap \<Rightarrow> gmap \<Rightarrow> string option outcome \<times> event list" where
  "readReply parsedMsg headers =
     (case getString headers ''requestId'' of
        Panics \<Rightarrow> (Panics, [Log InfoLevel])
      | Returns requestId \<Rightarrow>
          if requestId = [] then (Returns None, [Log InfoLevel, Log ErrorLevel])
          else
            (case getString headers ''reqOffset'' of
               Panics \<Rightarrow> (Panics, [Log InfoLevel, Log InfoLevel])
             | Returns reqOffset \<Rightarrow>
                 (case getString headers ''type'' of
                    Panics \<Rightarrow> (Panics, [Log InfoLevel, Log InfoLevel, Log InfoLevel])
                  | Returns msgType \<Rightarrow>
                      (case (if msgType = MsgTypeError
                             then getString parsedMsg ''errorMessage''
                             else getString parsedMsg ''transactionHash'') of
                         Panics \<Rightarrow>
                           (Panics, [Log InfoLevel, Log InfoLevel, Log InfoLevel, Log InfoLevel])
                       | Returns result \<Rightarrow>
                           (Returns (Some requestId),
                            [Log InfoLevel, Log InfoLevel, Log InfoLevel, Log InfoLevel,
                             Log InfoLevel])))))"

text \<open>
  The test before the type assertion reads \<^verbatim>\<open>reflect.TypeOf(headers)\<close>, the variable
  declared one line above with a map type, so it holds for every message; the assertion
  \<^verbatim>\<open>iHeaders.(map[string]interface{})\<close> then panics on an entry that is not a map.
\<close>

definition kldwebhooks_processReply ::
  "'w runtime \<Rightarrow> 'w WebhooksBridge \<Rightarrow> string \<Rightarrow> 'w \<Rightarrow> unit outcome \<times> event list \<times> 'w" where
  "kldwebhooks_processReply rt wb msgBytes w =
     (case unmarshal rt msgBytes of
        Inl err \<Rightarrow> (Returns (), [Log ErrorLevel], w)
      | Inr parsedMsg \<Rightarrow>
          (case map_of parsedMsg ''headers'' of
             None \<Rightarrow> (Returns (), [Log ErrorLevel], w)
           | Some (GMap headers) \<Rightarrow>
               (case readReply parsedMsg headers of
                  (Panics, tr) \<Rightarrow> (Panics, tr, w)
                | (Returns None, tr) \<Rightarrow> (Returns (), tr, w)
                | (Returns (Some requestId), tr) \<Rightarrow>
                    (case mongo wb of
                       None \<Rightarrow> (Returns (), tr, w)
                     | Some m \<Rightarrow>
                         if requestId \<noteq> [] then
                           (let parsedMsg1 = AList.update ''_id'' (GString requestId) parsedMsg
                            in case Insert m parsedMsg1 w of
                                 (None, w1) \<Rightarrow>
                                   (Returns (), tr @ [CallInsert parsedMsg1, Log InfoLevel], w1)
                               | (Some err, w1) \<Rightarrow>
                                   (Returns (), tr @ [CallInsert parsedMsg1, Log ErrorLevel], w1))
                         else (Returns (), tr, w)))
           | Some _ \<Rightarrow> (Panics, [], w)))"


section \<open>The REST handlers of the receipt store\<close>

text \<open>
  A handler answers by writing to the response: a status with an error, or a status with
  the JSON text of a value. The client sees the status of the first write.
\<close>

datatype payload = ErrorBody error | JSONBody gvalue

type_synonym response = "(nat \<times> payload) list"

definition statusOf :: "response \<Rightarrow> nat option" where
  "statusOf res = (case res of [] \<Rightarrow> None | (status, b) # ws \<Rightarrow> Some status)"

text \<open>
  Modelled from the spec: \<^verbatim>\<open>sendRESTError\<close> is defined outside the files at hand; it
  answers the request with the given error and status.
\<close>

definition sendRESTError :: "error \<Rightarrow> nat \<Rightarrow> response" where
  "sendRESTError err status = [(status, ErrorBody err)]"

definition marshalAndReply :: "'w runtime \<Rightarrow> gvalue \<Rightarrow> response \<times> event list" where
  "marshalAndReply rt result =
     (case marshalIndent rt result of
        Some err \<Rightarrow> (sendRESTError (Errorf ReceiptStoreSerializeResponse) 500, [Log ErrorLevel])
      | None \<Rightarrow> ([(200, JSONBody result)], [Log InfoLevel]))"

text \<open>
  \<^verbatim>\<open>req.FormValue\<close>: the first value of the key, or the empty string.
\<close>

definition FormValue :: "request \<Rightarrow> string \<Rightarrow> string" where
  "FormValue req key = (case map_of (Form req) key of Some (v # vs) \<Rightarrow> v | _ \<Rightarrow> [])"

text \<open>
  \<^verbatim>\<open>uuidCharsVerifier.MatchString\<close> for the expression \<^verbatim>\<open>^[0-9a-zA-Z-]+$\<close>.
\<close>

definition uuidChars :: string where
  "uuidChars = ''0123456789abcdefghijklmnopqrstuvwxyzABCDEFGHIJKLMNOPQRSTUVWXYZ-''"

definition uuidCharsVerifier :: "string \<Rightarrow> bool" where
  "uuidCharsVerifier s = (s \<noteq> [] \<and> list_all (\<lambda>c. c \<in> set uuidChars) s)"

text \<open>
  \<^verbatim>\<open>strconv.ParseInt(s, 10, bitSize)\<close>: an optional sign and decimal digits. The result
  is the value and no error; zero and a syntax error; or, when the value does not fit
  \<open>bitSize\<close> bits, the nearest bound and a range error.
\<close>

definition digitVal :: "char \<Rightarrow> nat option" where
  "digitVal c = (if c \<in> set ''0123456789'' then Some (of_char c - 48) else None)"

fun parseDigits :: "nat \<Rightarrow> string \<Rightarrow> nat option" where
  "parseDigits acc [] = Some acc"
| "parseDigits acc (c # cs) =
     (case digitVal c of None \<Rightarrow> None | Some d \<Rightarrow> parseDigits (acc * 10 + d) cs)"

definition ParseInt :: "string \<Rightarrow> nat \<Rightarrow> int \<times> error option" where
  "ParseInt s bitSize =
     (case s of
        [] \<Rightarrow> (0, Some (Foreign ''invalid syntax''))
      | c # cs \<Rightarrow>
          (let neg = (c = CHR ''-'');
               s1 = (if c = CHR ''+'' \<or> c = CHR ''-'' then cs else s)
           in if s1 = [] then (0, Some (Foreign ''invalid syntax''))
              else
                (case parseDigits 0 s1 of
                   None \<Rightarrow> (0, Some (Foreign ''invalid syntax''))
                 | Some un \<Rightarrow>
                     (let cutoff = (2 :: int) ^ (bitSize - 1)
                      in if \<not> neg \<and> int un \<ge> cutoff
                         then (cutoff - 1, Some (Foreign ''value out of range''))
                         else if neg \<and> int un > cutoff
                         then (- cutoff, Some (Foreign ''value out of range''))
                         else (if neg then - int un else int un, None)))))"

text \<open>
  The blocks of \<^verbatim>\<open>getReplies\<close> that read \<^verbatim>\<open>id\<close>, \<^verbatim>\<open>limit\<close> and \<^verbatim>\<open>skip\<close>: each yields
  the value, or the response with which the handler returns. The block for \<^verbatim>\<open>since\<close>
  sends its 400 and goes on (it has no \<^verbatim>\<open>return\<close>), with the value \<^verbatim>\<open>ParseInt\<close> left.
\<close>

definition extractIDs :: "request \<Rightarrow> (response \<times> event list) + int \<times> string list" where
  "extractIDs req =
     (case map_of (Form req) ''id'' of
        None \<Rightarrow> Inr (defaultReceiptLimit, [])
      | Some ids \<Rightarrow>
          if list_all uuidCharsVerifier ids then Inr (0, ids)
          else Inl (sendRESTError (Errorf ReceiptStoreInvalidRequestID) 400, [Log ErrorLevel]))"

definition extractLimit ::
  "'w receiptStore \<Rightarrow> request \<Rightarrow> int \<Rightarrow> (response \<times> event list) + int" where
  "extractLimit r req limit =
     (let limitStr = FormValue req ''limit''
      in if limitStr \<noteq> [] then
           (case ParseInt limitStr 32 of
              (customLimit, None) \<Rightarrow>
                if customLimit > QueryLimit (conf r)
                then Inl (sendRESTError (Errorf ReceiptStoreInvalidRequestMaxLimit) 400,
                          [Log ErrorLevel])
                else if customLimit > 0 then Inr customLimit
                else Inr limit
            | (customLimit, Some err) \<Rightarrow>
                Inl (sendRESTError (Errorf ReceiptStoreInvalidRequestBadLimit) 400,
                     [Log ErrorLevel]))
         else Inr limit)"

definition extractSkip :: "request \<Rightarrow> (response \<times> event list) + int" where
  "extractSkip req =
     (let skipStr = FormValue req ''skip''
      in if skipStr \<noteq> [] then
           (case ParseInt skipStr 32 of
              (skipI64, None) \<Rightarrow>
                if skipI64 > 0 then Inr skipI64
                else Inl (sendRESTError (Errorf ReceiptStoreInvalidRequestBadSkip) 400,
                          [Log ErrorLevel])
            | (skipI64, Some err) \<Rightarrow>
                Inl (sendRESTError (Errorf ReceiptStoreInvalidRequestBadSkip) 400,
                     [Log ErrorLevel]))
         else Inr 0)"

definition extractSince :: "'w runtime \<Rightarrow> request \<Rightarrow> int \<times> response \<times> event list" where
  "extractSince rt req =
     (let since = FormValue req ''since''
      in if since \<noteq> [] then
           (case parseRFC3339Nano rt since of
              Inr isoTime \<Rightarrow> (isoTime sdiv Millisecond, [], [])
            | Inl err \<Rightarrow>
                (case ParseInt since 64 of
                   (sinceEpochMS, None) \<Rightarrow> (sinceEpochMS, [], [])
                 | (sinceEpochMS, Some err) \<Rightarrow>
                     (sinceEpochMS,
                      sendRESTError (Errorf ReceiptStoreInvalidRequestBadSince) 400,
                      [Log ErrorLevel])))
         else (0, [], []))"

text \<open>
  \<^verbatim>\<open>getReplies\<close>: the outcome, the writes to the response and the events.
\<close>

definition getReplies ::
  "'w runtime \<Rightarrow> 'w receiptStore \<Rightarrow> request \<Rightarrow> 'w \<Rightarrow> unit outcome \<times> response \<times> event list" where
  "getReplies rt r req w =
     (case AuthListAsyncReplies rt req of
        Some err \<Rightarrow>
          (Returns (), sendRESTError (Errorf Unauthorized) 401, [Log InfoLevel, Log ErrorLevel])
      | None \<Rightarrow>
          (case persistence r of
             None \<Rightarrow> (Returns (), sendRESTError (Errorf ReceiptStoreDisabled) 405, [Log InfoLevel])
           | Some p \<Rightarrow>
               (case extractIDs req of
                  Inl (res, tr) \<Rightarrow> (Returns (), res, Log InfoLevel # tr)
                | Inr (limit0, ids) \<Rightarrow>
                    (case extractLimit r req limit0 of
                       Inl (res, tr) \<Rightarrow> (Returns (), res, Log InfoLevel # tr)
                     | Inr limit \<Rightarrow>
                         (case extractSkip req of
                            Inl (res, tr) \<Rightarrow> (Returns (), res, Log InfoLevel # tr)
                          | Inr skip \<Rightarrow>
                              (case extractSince rt req of
                                 (sinceEpochMS, res0, tr0) \<Rightarrow>
                                   (let from = FormValue req ''from'';
                                        to = FormValue req ''to'';
                                        start = FormValue req ''start'';
                                        call = CallGetReceipts skip limit ids sinceEpochMS
                                                 from to start
                                    in case GetReceipts p skip limit ids sinceEpochMS
                                              from to start w of
                                         Inl err \<Rightarrow>
                                           (Returns (),
                                            res0 @ sendRESTError (Errorf ReceiptStoreFailedQuery) 500,
                                            Log InfoLevel # tr0 @ [call, Log ErrorLevel])
                                       | Inr results \<Rightarrow>
                                           (case marshalAndReply rt (GSlice (map GMap results)) of
                                              (res1, tr1) \<Rightarrow>
                                                (Returns (), res0 @ res1,
                                                 Log InfoLevel # tr0 @ [call, Log DebugLevel]
                                                   @ tr1)))))))))"

text \<open>
  \<^verbatim>\<open>getReply\<close> calls \<^verbatim>\<open>r.persistence.GetReceipt\<close> right after the authorization; on a
  nil \<^verbatim>\<open>persistence\<close> that call panics.
\<close>

definition getReply ::
  "'w runtime \<Rightarrow> 'w receiptStore \<Rightarrow> request \<Rightarrow> 'w \<Rightarrow> unit outcome \<times> response \<times> event list" where
  "getReply rt r req w =
     (case AuthReadAsyncReplyByUUID rt req of
        Some err \<Rightarrow>
          (Returns (), sendRESTError (Errorf Unauthorized) 401, [Log InfoLevel, Log ErrorLevel])
      | None \<Rightarrow>
          (let requestID = paramID req
           in case persistence r of
                None \<Rightarrow> (Panics, [], [Log InfoLevel])
              | Some p \<Rightarrow>
                  (case GetReceipt p requestID w of
                     Inl err \<Rightarrow>
                       (Returns (), sendRESTError (Errorf ReceiptStoreFailedQuerySingle) 500,
                        [Log InfoLevel, CallGetReceipt requestID, Log ErrorLevel])
                   | Inr None \<Rightarrow>
                       (Returns (), sendRESTError (Errorf ReceiptStoreFailedNotFound) 404,
                        [Log InfoLevel, CallGetReceipt requestID, Log InfoLevel])
                   | Inr (Some result) \<Rightarrow>
                       (case marshalAndReply rt (GMap result) of
                          (res, tr) \<Rightarrow>
                            (Returns (), res,
                             [Log InfoLevel, CallGetReceipt requestID, Log InfoLevel] @ tr)))))"


section \<open>Sample collaborators\<close>

text \<open>
  A small world on which the definitions can be run: a clock, the in-memory receipt list
  as the persistence tier (its \<^verbatim>\<open>AddReceipt\<close> fails as many times as \<open>failing\<close> says and
  takes \<open>writeTime\<close> nanoseconds; its \<^verbatim>\<open>GetReceipt\<close> fails while the tier is \<open>down\<close>), and
  a gateway that records the replies it is sent.
\<close>

record demoWorld =
  clock :: int
  stored :: memoryReceipts
  failing :: nat
  writeTime :: nat
  down :: bool
  replies :: "gmap list"

definition demoConf :: ReceiptStoreConf where
  "demoConf = \<lparr>MaxDocs = 250, QueryLimit = 100, RetryTimeoutMS = 2000, RetryInitialDelayMS = 0\<rparr>"

definition demoPersistence :: "demoWorld ReceiptStorePersistence" where
  "demoPersistence =
     \<lparr>GetReceipt = (\<lambda>requestID w.
         if down w then Inl (Foreign ''unreachable'')
         else memoryReceipts_GetReceipt (stored w) requestID),
      GetReceipts = (\<lambda>skip limit ids since from to start w.
         case memoryReceipts_GetReceipts (stored w) skip limit ids of
           Returns x \<Rightarrow> x
         | Panics \<Rightarrow> Inl (Foreign ''panic'')),
      AddReceipt = (\<lambda>requestID receipt overwrite w.
         if failing w > 0
         then (Some (Foreign ''write failed''),
               w\<lparr>failing := failing w - 1, clock := clock w + int (writeTime w)\<rparr>)
         else (None, w\<lparr>stored := snd (memoryReceipts_AddReceipt (stored w) receipt),
                        clock := clock w + int (writeTime w)\<rparr>))\<rparr>"

definition demoGateway :: "demoWorld SmartContractGateway" where
  "demoGateway =
     \<lparr>PostDeploy = (\<lambda>receipt w. (None, w)),
      SendReply = (\<lambda>receipt w. w\<lparr>replies := replies w @ [receipt]\<rparr>)\<rparr>"

text \<open>
  Four messages and what \<^verbatim>\<open>json.Unmarshal\<close> makes of them; every other input of the
  sample decoder is refused.
\<close>

definition msgHeadersString :: string where
  \<open>msgHeadersString = ''{"headers":"x"}''\<close>

definition msgNoRequestId :: string where
  \<open>msgNoRequestId = ''{"headers":{"type":"error"}}''\<close>

definition msgRedelivery :: string where
  \<open>msgRedelivery =
     ''{"headers":{"requestId":"req-4","type":"transaction-redelivery-prevented"},"transactionHash":"0xdead"}''\<close>

definition msgSuccess :: string where
  \<open>msgSuccess =
     ''{"headers":{"requestId":"req-4","type":"transaction-success"},"transactionHash":"0xabcd"}''\<close>

definition demoMessages :: "(string \<times> gmap) list" where
  "demoMessages =
     [(msgHeadersString, [(''headers'', GString ''x'')]),
      (msgNoRequestId, [(''headers'', GMap [(''type'', GString ''error'')])]),
      (msgRedelivery,
       [(''headers'', GMap [(''requestId'', GString ''req-4''),
                           (''type'', GString ''transaction-redelivery-prevented'')]),
        (''transactionHash'', GString ''0xdead'')]),
      (msgSuccess,
       [(''headers'', GMap [(''requestId'', GString ''req-4''),
                           (''type'', GString ''transaction-success'')]),
        (''transactionHash'', GString ''0xabcd'')])]"

definition demoRuntime :: "demoWorld runtime" where
  "demoRuntime =
     \<lparr>now = clock,
      sleep = (\<lambda>d w. w\<lparr>clock := clock w + max d 0\<rparr>),
      unmarshal = (\<lambda>b. case map_of demoMessages b of
                           Some m \<Rightarrow> Inr m
                         | None \<Rightarrow> Inl (Foreign ''invalid character'')),
      unmarshalReceipt = (\<lambda>b. Inl (Foreign ''invalid character'')),
      marshalIndent = (\<lambda>v. None),
      parseRFC3339Nano = (\<lambda>s. Inl (Foreign ''cannot parse'')),
      Code = (\<lambda>c. ''FFEC''),
      ErrorNoCode = (\<lambda>c. ''check the transaction hash''),
      AuthListAsyncReplies = (\<lambda>req. None),
      AuthReadAsyncReplyByUUID = (\<lambda>req. None)\<rparr>"

definition demoStore :: "demoWorld receiptStore" where
  "demoStore = newReceiptStore demoConf (Some demoPersistence) (Some demoGateway)"

definition demoMemory :: memoryReceipts where
  "demoMemory =
     \<lparr>mconf = demoConf,
      receipts = [[(''_id'', GString ''c'')], [(''_id'', GString ''b'')],
                  [(''_id'', GString ''a'')]]\<rparr>"

definition reqLimit :: "string \<Rightarrow> request" where
  "reqLimit s = \<lparr>Form = [(''limit'', [s])], paramID = []\<rparr>"

definition demoWorld0 :: demoWorld where
  "demoWorld0 = \<lparr>clock = 0, stored = demoMemory, failing = 0, writeTime = 1000000,
                  down = False, replies = []\<rparr>"

definition demoReceipt :: gmap where
  "demoReceipt = [(''_id'', GString ''req-1'')]"

definition demoAccepted :: gmap where
  "demoAccepted = [(''receivedAt'', GInt64 0), (''pending'', GBool True),
                   (''msgAck'', GString ''ack-1''), (''_id'', GString ''req-1'')]"

definition demoSuccessReceipt :: gmap where
  "demoSuccessReceipt =
     [(''headers'', GMap [(''requestId'', GString ''req-4''),
                         (''type'', GString ''transaction-success'')]),
      (''transactionHash'', GString ''0xabcd''),
      (''receivedAt'', GInt64 0),
      (''_id'', GString ''req-4'')]"


definition demoRedeliveryReceipt :: gmap where
  "demoRedeliveryReceipt =
     [(''headers'', GMap [(''requestId'', GString ''req-4''),
                         (''type'', GString ''transaction-redelivery-prevented'')]),
      (''transactionHash'', GString ''0xdead''),
      (''errorCode'', GString ''FFEC''),
      (''errorMessage'', GString ''check the transaction hash''),
      (''receivedAt'', GInt64 0),
      (''_id'', GString ''req-4'')]"

definition demoCalls :: "demoWorld storeCall list" where
  "demoCalls = [CallReserveID ''req-9'' demoWorld0, CallReserveID ''req-2'' demoWorld0,
                CallRelease (Release ''req-9'')]"

lemmas eval_defs =
  getReplies_def extractIDs_def extractLimit_def extractSkip_def extractSince_def
  FormValue_def ParseInt_def digitVal_def marshalAndReply_def sendRESTError_def
  memoryReceipts_GetReceipts_def defaultReceiptLimit_def reqLimit_def statusOf_def

lemmas run_defs =
  demoStore_def demoRuntime_def demoPersistence_def demoGateway_def demoWorld0_def demoConf_def
  demoMemory_def newReceiptStore_def Millisecond_def backoff_def memoryReceipts_AddReceipt_def
  defaultRetryTimeout_def defaultRetryInitialDelay_def defaultMaxDocs_def
  signed_divide_int_def

lemmas msg_defs =
  MsgTypeError_def MsgTypeTransactionSuccess_def MsgTypeTransactionFailure_def
  MsgTypeTransactionRedeliveryPrevented_def extractHeaders_def GetMapString_def
  isTerminalReceipt_def

lemmas map_of_update = update_conv' [THEN fun_cong]

lemmas demo_defs =
  demoConf_def demoPersistence_def demoGateway_def demoMessages_def demoRuntime_def
  demoStore_def demoMemory_def demoWorld0_def newReceiptStore_def
  msgHeadersString_def msgNoRequestId_def msgRedelivery_def msgSuccess_def
  defaultRetryTimeout_def defaultRetryInitialDelay_def defaultMaxDocs_def

section \<open>The in-memory list: results and errors of a query\<close>

lemma skipLoop_drop: "skipLoop i skip es = drop (nat (skip - i)) es"
proof (induction es arbitrary: i)
  case Nil
  show ?case by simp
next
  case (Cons e es)
  have "nat (skip - i) = Suc (nat (skip - (i + 1)))" if "i < skip"
    using that by simp
  with Cons show ?case by simp
qed

lemma collectLoop_take:
  "collectLoop i limit results es = results @ take (nat (limit - i)) es"
proof (induction es arbitrary: i results)
  case Nil
  show ?case by simp
next
  case (Cons e es)
  have "nat (limit - i) = Suc (nat (limit - (i + 1)))" if "i < limit"
    using that by simp
  with Cons show ?case by simp
qed






section \<open>The limit of a query for replies\<close>

lemma getReplies_limit_rejected:
  assumes "AuthListAsyncReplies rt req = None"
      and "persistence r = Some p"
      and "FormValue req ''limit'' = limitStr" and "limitStr \<noteq> []"
      and "ParseInt limitStr 32 = (n, None)" and "n > QueryLimit (conf r)"
  shows "getReplies rt r req w =
           (Returns (),
            sendRESTError (Errorf (case extractIDs req of
                                     Inl x \<Rightarrow> ReceiptStoreInvalidRequestID
                                   | Inr x \<Rightarrow> ReceiptStoreInvalidRequestMaxLimit)) 400,
            [Log InfoLevel, Log ErrorLevel])"
proof (cases "extractIDs req")
  case (Inl x)
  then have "x = (sendRESTError (Errorf ReceiptStoreInvalidRequestID) 400, [Log ErrorLevel])"
    by (auto simp: extractIDs_def split: option.splits if_splits)
  with Inl assms(1,2) show ?thesis
    by (simp add: getReplies_def)
next
  case (Inr x)
  obtain limit0 ids where x: "x = (limit0, ids)" by (cases x)
  have "extractLimit r req limit0 =
          Inl (sendRESTError (Errorf ReceiptStoreInvalidRequestMaxLimit) 400, [Log ErrorLevel])"
    using assms(3-6) by (simp add: extractLimit_def)
  with Inr x assms(1,2) show ?thesis
    by (simp add: getReplies_def)
qed

lemma getReplies_query:
  assumes "AuthListAsyncReplies rt req = None"
      and "persistence r = Some p"
      and "extractIDs req = Inr (limit0, ids)"
      and "extractLimit r req limit0 = Inr limit"
      and "extractSkip req = Inr skip"
      and "extractSince rt req = (sinceEpochMS, res0, tr0)"
      and "GetReceipts p skip limit ids sinceEpochMS (FormValue req ''from'')
             (FormValue req ''to'') (FormValue req ''start'') w = Inr results"
  shows "getReplies rt r req w =
           (Returns (), res0 @ fst (marshalAndReply rt (GSlice (map GMap results))),
            Log InfoLevel # tr0
              @ [CallGetReceipts skip limit ids sinceEpochMS (FormValue req ''from'')
                   (FormValue req ''to'') (FormValue req ''start''), Log DebugLevel]
              @ snd (marshalAndReply rt (GSlice (map GMap results))))"
  using assms by (simp add: getReplies_def Let_def split: prod.splits)

lemma extractLimit_cases:
  assumes "FormValue req ''limit'' = limitStr" and "limitStr \<noteq> []"
      and "ParseInt limitStr 32 = (n, None)"
  shows "extractLimit r req limit0 =
           (if n > QueryLimit (conf r)
            then Inl (sendRESTError (Errorf ReceiptStoreInvalidRequestMaxLimit) 400,
                      [Log ErrorLevel])
            else if n > 0 then Inr n else Inr limit0)"
  using assms by (simp add: extractLimit_def)

lemma extractIDs_limit0:
  "extractIDs req = Inr (limit0, ids) \<Longrightarrow> 0 \<le> limit0"
  by (auto simp: extractIDs_def defaultReceiptLimit_def split: option.splits if_splits)

lemma length_take_int: "0 < n \<Longrightarrow> int (length (take (nat n) xs)) \<le> n"
proof -
  assume "0 < n"
  have "length (take (nat n) xs) \<le> nat n" by simp
  with \<open>0 < n\<close> show ?thesis by linarith
qed

text \<open>
  C6, as the code has it. A request for the replies that is authorized, with the store
  enabled, whose \<open>limit\<close> parses as an integer above \<^verbatim>\<open>QueryLimit\<close> is answered with status
  400 and no query is made: the only events are two log lines. The error is the one for
  the limit, unless an \<open>id\<close> of the request was refused first.
\<close>

theorem getReplies_limit_not_clamped:
  assumes "AuthListAsyncReplies rt req = None"
      and "persistence r = Some p"
      and "FormValue req ''limit'' = limitStr" and "limitStr \<noteq> []"
      and "ParseInt limitStr 32 = (n, None)" and "n > QueryLimit (conf r)"
  shows "getReplies rt r req w =
           (Returns (),
            sendRESTError (Errorf (case extractIDs req of
                                     Inl x \<Rightarrow> ReceiptStoreInvalidRequestID
                                   | Inr x \<Rightarrow> ReceiptStoreInvalidRequestMaxLimit)) 400,
            [Log InfoLevel, Log ErrorLevel])"
  using assms by (rule getReplies_limit_rejected)

theorem getReplies_limit_not_clamped_witness:
  "AuthListAsyncReplies demoRuntime (reqLimit ''1000'') = None
   \<and> persistence demoStore = Some demoPersistence
   \<and> FormValue (reqLimit ''1000'') ''limit'' = ''1000'' \<and> ''1000'' \<noteq> []
   \<and> ParseInt ''1000'' 32 = (1000, None) \<and> 1000 > QueryLimit (conf demoStore)
   \<and> getReplies demoRuntime demoStore (reqLimit ''1000'') demoWorld0 =
        (Returns (), [(400, ErrorBody (Errorf ReceiptStoreInvalidRequestMaxLimit))],
         [Log InfoLevel, Log ErrorLevel])"
proof -
  have a: "AuthListAsyncReplies demoRuntime (reqLimit ''1000'') = None"
    by (simp add: demo_defs)
  have b: "persistence demoStore = Some demoPersistence"
    by (simp add: demo_defs)
  have c: "FormValue (reqLimit ''1000'') ''limit'' = ''1000''"
    by (simp add: eval_defs)
  have d: "''1000'' \<noteq> []" by simp
  have e: "ParseInt ''1000'' 32 = (1000, None)"
    by (simp add: eval_defs)
  have f: "1000 > QueryLimit (conf demoStore)"
    by (simp add: demo_defs)
  have g: "extractIDs (reqLimit ''1000'') = Inr (10, [])"
    by (simp add: eval_defs)
  show ?thesis
    using getReplies_limit_not_clamped [OF a b c d e f, of demoWorld0] a b c d e f g
    by (simp add: sendRESTError_def)
qed

text \<open>
  C6 as stated fails: with \<^verbatim>\<open>QueryLimit\<close> 100, the request \<^verbatim>\<open>GET /replies?limit=1000\<close> is
  answered with status 400; the persistence tier is not queried with a limit of 100 or any
  other.
\<close>

theorem getReplies_limit_1000_rejected:
  "getReplies demoRuntime demoStore (reqLimit ''1000'') demoWorld0 =
     (Returns (), [(400, ErrorBody (Errorf ReceiptStoreInvalidRequestMaxLimit))],
      [Log InfoLevel, Log ErrorLevel])"
  by (simp add: eval_defs demo_defs)

text \<open>
  C7, as the code has it. Take a request for the replies that is authorized, with the
  store enabled, no \<open>id\<close>, a \<open>skip\<close> and a \<open>since\<close> that are accepted, and a \<open>limit\<close> that
  parses as the integer \<open>n\<close>; let the persistence tier answer as the in-memory list \<open>m\<close>
  does. If \<open>n\<close> is above \<^verbatim>\<open>QueryLimit\<close> the answer is status 400. Otherwise the tier is
  queried with the limit \<open>n\<close> when \<open>n\<close> is positive, and with the default limit when it is
  not, and the answer carries the receipts of that query; for a positive \<open>n\<close> these are at
  most \<open>n\<close>.
\<close>

theorem getReplies_limit_bounds:
  assumes auth: "AuthListAsyncReplies rt req = None"
      and pers: "persistence r = Some p"
      and ids: "extractIDs req = Inr (limit0, [])"
      and skip: "extractSkip req = Inr skip"
      and since: "extractSince rt req = (sinceEpochMS, [], tr0)"
      and lim: "FormValue req ''limit'' = limitStr" "limitStr \<noteq> []"
               "ParseInt limitStr 32 = (n, None)"
      and mem: "\<forall>limit. 0 \<le> limit \<longrightarrow>
                  memoryReceipts_GetReceipts m skip limit [] =
                    Returns (GetReceipts p skip limit [] sinceEpochMS (FormValue req ''from'')
                               (FormValue req ''to'') (FormValue req ''start'') w)"
  shows "getReplies rt r req w =
           (if n > QueryLimit (conf r)
            then (Returns (), sendRESTError (Errorf ReceiptStoreInvalidRequestMaxLimit) 400,
                  [Log InfoLevel, Log ErrorLevel])
            else
              (let limit = (if n > 0 then n else limit0);
                   results = take (nat limit) (drop (nat skip) (receipts m))
               in (Returns (), fst (marshalAndReply rt (GSlice (map GMap results))),
                   Log InfoLevel # tr0
                     @ [CallGetReceipts skip limit [] sinceEpochMS (FormValue req ''from'')
                          (FormValue req ''to'') (FormValue req ''start''), Log DebugLevel]
                     @ snd (marshalAndReply rt (GSlice (map GMap results))))))
         \<and> (if 0 < n then int (length (take (nat n) (drop (nat skip) (receipts m)))) \<le> n
             else True)"
proof (cases "n > QueryLimit (conf r)")
  case True
  have "int (length (take (nat n) (drop (nat skip) (receipts m)))) \<le> n" if "0 < n"
    using that by (rule length_take_int)
  with getReplies_limit_rejected [OF auth pers lim True, of w] ids True
  show ?thesis by simp
next
  case False
  define limit where "limit = (if n > 0 then n else limit0)"
  have l0: "0 \<le> limit"
    using extractIDs_limit0 [OF ids] by (simp add: limit_def)
  have el: "extractLimit r req limit0 = Inr limit"
    using extractLimit_cases [OF lim, of r limit0] False by (simp add: limit_def)
  have "memoryReceipts_GetReceipts m skip limit [] =
          Returns (Inr (take (nat limit) (drop (nat skip) (receipts m))))"
    using l0 by (simp add: memoryReceipts_GetReceipts_def skipLoop_drop collectLoop_take)
  with mem l0 have q: "GetReceipts p skip limit [] sinceEpochMS (FormValue req ''from'')
      (FormValue req ''to'') (FormValue req ''start'') w
        = Inr (take (nat limit) (drop (nat skip) (receipts m)))"
    by simp
  have "int (length (take (nat n) (drop (nat skip) (receipts m)))) \<le> n" if "0 < n"
    using that by (rule length_take_int)
  with getReplies_query [OF auth pers ids el skip since q] False
  show ?thesis by (simp add: limit_def Let_def)
qed

theorem getReplies_limit_bounds_witness:
  "getReplies demoRuntime demoStore (reqLimit ''2'') demoWorld0 =
     (Returns (),
      [(200, JSONBody (GSlice [GMap [(''_id'', GString ''c'')], GMap [(''_id'', GString ''b'')]]))],
      [Log InfoLevel, CallGetReceipts 0 2 [] 0 [] [] [], Log DebugLevel, Log InfoLevel])
   \<and> getReplies demoRuntime demoStore (reqLimit ''101'') demoWorld0 =
     (Returns (), [(400, ErrorBody (Errorf ReceiptStoreInvalidRequestMaxLimit))],
      [Log InfoLevel, Log ErrorLevel])"
proof -
  have a: "AuthListAsyncReplies demoRuntime (reqLimit s) = None" for s
    by (simp add: demo_defs)
  have b: "persistence demoStore = Some demoPersistence"
    by (simp add: demo_defs)
  have c: "extractIDs (reqLimit s) = Inr (10, [])" for s
    by (simp add: eval_defs)
  have d: "extractSkip (reqLimit s) = Inr 0" for s
    by (simp add: eval_defs)
  have e: "extractSince demoRuntime (reqLimit s) = (0, [], [])" for s
    by (simp add: eval_defs)
  have f: "FormValue (reqLimit s) ''limit'' = s" for s
    by (simp add: eval_defs)
  have g2: "ParseInt ''2'' 32 = (2, None)" and g101: "ParseInt ''101'' 32 = (101, None)"
    by (simp_all add: eval_defs)
  have m: "\<forall>limit. 0 \<le> limit \<longrightarrow>
             memoryReceipts_GetReceipts demoMemory 0 limit [] =
               Returns (GetReceipts demoPersistence 0 limit [] 0 (FormValue (reqLimit s) ''from'')
                          (FormValue (reqLimit s) ''to'') (FormValue (reqLimit s) ''start'')
                          demoWorld0)" for s
    by (simp add: demoPersistence_def demoWorld0_def memoryReceipts_GetReceipts_def)
  have q: "QueryLimit (conf demoStore) = 100"
    by (simp add: demo_defs)
  have n2: "''2'' \<noteq> []" and n101: "''101'' \<noteq> []" by simp_all
  show ?thesis
    using getReplies_limit_bounds [OF a b c d e f n2 g2 m]
          getReplies_limit_bounds [OF a b c d e f n101 g101 m]
    by (simp add: q eval_defs demoRuntime_def demoMemory_def)
qed

text \<open>
  C7 as stated fails for a limit that is not positive: with \<^verbatim>\<open>QueryLimit\<close> 100 and three
  stored receipts, \<^verbatim>\<open>GET /replies?limit=0\<close> supplies the limit 0, which is at most
  \<^verbatim>\<open>QueryLimit\<close>; the query is made with the default limit 10 and the answer carries three
  receipts.
\<close>

theorem getReplies_limit_zero:
  "ParseInt ''0'' 32 = (0, None) \<and> 0 \<le> QueryLimit (conf demoStore)
   \<and> getReplies demoRuntime demoStore (reqLimit ''0'') demoWorld0 =
       (Returns (),
        [(200, JSONBody (GSlice [GMap [(''_id'', GString ''c'')], GMap [(''_id'', GString ''b'')],
                                 GMap [(''_id'', GString ''a'')]]))],
        [Log InfoLevel, CallGetReceipts 0 10 [] 0 [] [] [], Log DebugLevel, Log InfoLevel])"
  by (simp add: eval_defs demo_defs)

section \<open>The status of a request for one reply\<close>

lemma getReply_statuses:
  assumes "AuthReadAsyncReplyByUUID rt req = None" and "persistence r = Some p"
  shows "(GetReceipt p (paramID req) w = Inr None \<longrightarrow>
            statusOf (fst (snd (getReply rt r req w))) = Some 404)
       \<and> (GetReceipt p (paramID req) w = Inl err \<longrightarrow>
            statusOf (fst (snd (getReply rt r req w))) = Some 500)"
  using assms by (simp add: getReply_def statusOf_def sendRESTError_def)

lemma getReplies_disabled:
  assumes "AuthListAsyncReplies rt req = None" and "persistence r = None"
  shows "statusOf (fst (snd (getReplies rt r req w))) = Some 405"
  using assms by (simp add: getReplies_def statusOf_def sendRESTError_def)

text \<open>
  C5. With a persistence tier, \<^verbatim>\<open>getReply\<close> answers 404 for no receipt and 500 for an
  error, and \<^verbatim>\<open>getReplies\<close> answers 405 when the store is disabled (the two lemmas above).
  \<^verbatim>\<open>getReply\<close> has no test for a disabled store: for \<^verbatim>\<open>GET /reply/ABCDEFG\<close> on a store
  created with a nil persistence it writes no response and panics in the call of
  \<^verbatim>\<open>GetReceipt\<close>.
\<close>

theorem getReply_nil_persistence:
  "getReply demoRuntime (newReceiptStore demoConf None None)
     \<lparr>Form = [], paramID = ''ABCDEFG''\<rparr> demoWorld0 = (Panics, [], [Log InfoLevel])"
  by (simp add: getReply_def demo_defs)


section \<open>Reserved request ids\<close>

lemma reserveID_persistence: "persistence (snd (reserveID r msgID w)) = persistence r"
  by (simp add: reserveID_def split: option.splits sum.splits)

lemma reserveID_keeps_reserved:
  "reservedIDs r x = Some True \<Longrightarrow> reservedIDs (snd (reserveID r msgID w)) x = Some True"
  by (simp add: reserveID_def split: option.splits sum.splits)

lemma applyCall_keeps:
  assumes "c \<noteq> CallRelease (Release x)"
  shows "persistence (applyCall r c) = persistence r"
    and "reservedIDs r x = Some True \<Longrightarrow> reservedIDs (applyCall r c) x = Some True"
proof -
  show "persistence (applyCall r c) = persistence r"
  proof (cases c)
    case (CallReserveID msgID w)
    then show ?thesis by (simp add: reserveID_persistence)
  next
    case (CallRelease h)
    then show ?thesis by (cases h) (simp add: release_def)
  qed
  show "reservedIDs (applyCall r c) x = Some True" if "reservedIDs r x = Some True"
  proof (cases c)
    case (CallReserveID msgID w)
    with that show ?thesis by (simp add: reserveID_keeps_reserved)
  next
    case (CallRelease h)
    with assms that show ?thesis by (cases h) (auto simp: release_def)
  qed
qed

lemma foldl_applyCall_keeps:
  assumes "CallRelease (Release x) \<notin> set cs" and "reservedIDs r x = Some True"
  shows "persistence (foldl applyCall r cs) = persistence r
       \<and> reservedIDs (foldl applyCall r cs) x = Some True"
  using assms
proof (induction cs arbitrary: r)
  case Nil
  then show ?case by simp
next
  case (Cons c cs)
  then have c: "c \<noteq> CallRelease (Release x)" and cs: "CallRelease (Release x) \<notin> set cs"
    by auto
  from applyCall_keeps [OF c] Cons.prems(2)
  have "persistence (applyCall r c) = persistence r"
    and "reservedIDs (applyCall r c) x = Some True" by auto
  with Cons.IH [OF cs, of "applyCall r c"] show ?case by simp
qed

lemma reserveID_success:
  assumes "reserveID r msgID w = (Returns (Inr h), r')"
  shows "h = Release msgID \<and> persistence r \<noteq> None \<and> reservedIDs r' msgID = Some True
       \<and> persistence r' = persistence r"
  using assms by (auto simp: reserveID_def split: option.splits sum.splits if_splits)

lemma reserveID_reserved:
  assumes "persistence r = Some p" and "reservedIDs r msgID = Some True"
  shows "reserveID r msgID w =
           (Returns (Inl (case GetReceipt p msgID w of
                            Inl err \<Rightarrow> err
                          | Inr m \<Rightarrow> Errorf ReceiptStoreKeyNotUnique)), r)"
  using assms by (simp add: reserveID_def split: sum.splits)

text \<open>
  C2, as the code has it. Let a first \<^verbatim>\<open>reserveID\<close> of \<open>msgID\<close> return a release handle.
  After any sequence of reservations and releases in which that handle is not invoked,
  \<open>msgID\<close> is still reserved, and a second \<^verbatim>\<open>reserveID\<close> of \<open>msgID\<close> fails and leaves the
  store, with its reservation set, as it was: it fails with \<^verbatim>\<open>ReceiptStoreKeyNotUnique\<close>
  when the lookup in the persistence tier answers, and with the error of that lookup when
  it does not. Invoking the handle removes \<open>msgID\<close> from the set.
\<close>

theorem reserveID_second_fails:
  assumes first: "reserveID r0 msgID w0 = (Returns (Inr h), r1)"
      and between: "CallRelease h \<notin> set calls"
  shows "\<exists>p. persistence r0 = Some p
           \<and> reservedIDs (foldl applyCall r1 calls) msgID = Some True
           \<and> reserveID (foldl applyCall r1 calls) msgID w =
               (Returns (Inl (case GetReceipt p msgID w of
                                Inl err \<Rightarrow> err
                              | Inr m \<Rightarrow> Errorf ReceiptStoreKeyNotUnique)),
                foldl applyCall r1 calls)
           \<and> reservedIDs (invoke h (foldl applyCall r1 calls)) msgID = None"
proof -
  from reserveID_success [OF first]
  have h: "h = Release msgID" and p0: "persistence r0 \<noteq> None"
    and res: "reservedIDs r1 msgID = Some True" and p1: "persistence r1 = persistence r0"
    by auto
  from p0 obtain p where p: "persistence r0 = Some p" by auto
  from between h have "CallRelease (Release msgID) \<notin> set calls" by simp
  from foldl_applyCall_keeps [OF this res] p1 p
  have pk: "persistence (foldl applyCall r1 calls) = Some p"
    and rk: "reservedIDs (foldl applyCall r1 calls) msgID = Some True" by auto
  from reserveID_reserved [OF pk rk] rk p h show ?thesis
    by (simp add: release_def)
qed

theorem reserveID_second_fails_witness:
  "reserveID demoStore ''req-2'' demoWorld0
     = (Returns (Inr (Release ''req-2'')), demoStore\<lparr>reservedIDs := [''req-2'' \<mapsto> True]\<rparr>)
   \<and> CallRelease (Release ''req-2'') \<notin> set demoCalls
   \<and> fst (reserveID (foldl applyCall (demoStore\<lparr>reservedIDs := [''req-2'' \<mapsto> True]\<rparr>) demoCalls)
            ''req-2'' demoWorld0)
       = Returns (Inl (Errorf ReceiptStoreKeyNotUnique))
   \<and> reservedIDs (snd (reserveID (foldl applyCall (demoStore\<lparr>reservedIDs := [''req-2'' \<mapsto> True]\<rparr>)
                                    demoCalls) ''req-2'' demoWorld0)) ''req-2'' = Some True
   \<and> reservedIDs (invoke (Release ''req-2'')
         (foldl applyCall (demoStore\<lparr>reservedIDs := [''req-2'' \<mapsto> True]\<rparr>) demoCalls)) ''req-2''
       = None"
proof -
  have a: "reserveID demoStore ''req-2'' demoWorld0
     = (Returns (Inr (Release ''req-2'')), demoStore\<lparr>reservedIDs := [''req-2'' \<mapsto> True]\<rparr>)"
    by (simp add: reserveID_def demo_defs memoryReceipts_GetReceipt_def)
  have b: "CallRelease (Release ''req-2'') \<notin> set demoCalls"
    by (simp add: demoCalls_def)
  have c: "persistence demoStore = Some demoPersistence"
    by (simp add: demo_defs)
  have d: "GetReceipt demoPersistence ''req-2'' demoWorld0 = Inr None"
    by (simp add: demo_defs memoryReceipts_GetReceipt_def)
  from reserveID_second_fails [OF a b, of demoWorld0] a b c d
  show ?thesis by (auto simp: c)
qed

text \<open>
  C2 as stated fails when the persistence tier cannot be read at the second call: the
  call fails with the error of the lookup, not with \<^verbatim>\<open>ReceiptStoreKeyNotUnique\<close>.
\<close>

theorem reserveID_second_lookup_error:
  "reserveID demoStore ''req-2'' demoWorld0
     = (Returns (Inr (Release ''req-2'')), demoStore\<lparr>reservedIDs := [''req-2'' \<mapsto> True]\<rparr>)
   \<and> fst (reserveID (demoStore\<lparr>reservedIDs := [''req-2'' \<mapsto> True]\<rparr>) ''req-2''
            (demoWorld0\<lparr>down := True\<rparr>))
       = Returns (Inl (Foreign ''unreachable''))"
  by (simp add: reserveID_def demo_defs memoryReceipts_GetReceipt_def)


section \<open>Retrying the write of a receipt\<close>

lemma sleepsOf_append: "sleepsOf (xs @ ys) = sleepsOf xs @ sleepsOf ys"
  by (induction xs rule: sleepsOf.induct) simp_all

lemma addCalls_append: "addCalls (xs @ ys) = addCalls xs + addCalls ys"
  by (induction xs rule: addCalls.induct) simp_all

lemma backoff_nonneg: "0 \<le> d \<Longrightarrow> backoff d = d * 11 div 10"
  unfolding backoff_def signed_divide_int_def by (simp add: sgn_if)

lemma backoff_pos: "1 \<le> d \<Longrightarrow> 1 \<le> backoff d"
  by (simp add: backoff_nonneg)

lemma map_funpow_Cons:
  "d # map (\<lambda>k. (f ^^ k) (f d)) [0..<m] = map (\<lambda>k. (f ^^ k) d) [0..<Suc m]"
proof -
  have "map (\<lambda>k. (f ^^ k) d) [0..<Suc m] = d # map (\<lambda>k. (f ^^ k) d) (map Suc [0..<m])"
    by (simp add: upt_conv_Cons map_Suc_upt del: upt_Suc)
  also have "map (\<lambda>k. (f ^^ k) d) (map Suc [0..<m]) = map (\<lambda>k. (f ^^ k) (f d)) [0..<m]"
    by (simp add: funpow_swap1 del: upt_Suc)
  finally show ?thesis by simp
qed

text \<open>
  Induction over the iterations of a run of the loop that ends, one case for each way an
  iteration goes on.
\<close>

lemma writeReceiptLoop_induct [consumes 1, case_names nil break return panic retry]:
  assumes run: "writeReceiptLoop rt r requestID receipt ov startTime retryTimeout delay attempt
                  tr w = Some y"
      and nil: "\<And>delay attempt tr w.
                  persistence r = None \<Longrightarrow>
                  P delay attempt tr w
                    (Panicf, if 0 < attempt then tr @ [Log InfoLevel, Sleep delay] else tr,
                     if 0 < attempt then sleep rt delay w else w)"
      and break: "\<And>delay attempt tr w p w2.
                  persistence r = Some p \<Longrightarrow>
                  AddReceipt p requestID receipt ov
                    (if 0 < attempt then sleep rt delay w else w) = (None, w2) \<Longrightarrow>
                  P delay attempt tr w
                    (Break, (if 0 < attempt then tr @ [Log InfoLevel, Sleep delay] else tr)
                              @ [CallAddReceipt requestID receipt ov, Log InfoLevel], w2)"
      and return: "\<And>delay attempt tr w p err w2.
                  persistence r = Some p \<Longrightarrow>
                  AddReceipt p requestID receipt ov
                    (if 0 < attempt then sleep rt delay w else w) = (Some err, w2) \<Longrightarrow>
                  \<not> ov \<Longrightarrow>
                  P delay attempt tr w
                    (ReturnErr err, (if 0 < attempt then tr @ [Log InfoLevel, Sleep delay] else tr)
                              @ [CallAddReceipt requestID receipt ov], w2)"
      and panic: "\<And>delay attempt tr w p err w2.
                  persistence r = Some p \<Longrightarrow>
                  AddReceipt p requestID receipt ov
                    (if 0 < attempt then sleep rt delay w else w) = (Some err, w2) \<Longrightarrow>
                  ov \<Longrightarrow> retryTimeout < now rt w2 - startTime \<Longrightarrow>
                  P delay attempt tr w
                    (Panicf, (if 0 < attempt then tr @ [Log InfoLevel, Sleep delay] else tr)
                              @ [CallAddReceipt requestID receipt ov, Log ErrorLevel,
                                 Log InfoLevel], w2)"
      and retry: "\<And>delay attempt tr w p err w2 y.
                  persistence r = Some p \<Longrightarrow>
                  AddReceipt p requestID receipt ov
                    (if 0 < attempt then sleep rt delay w else w) = (Some err, w2) \<Longrightarrow>
                  ov \<Longrightarrow> \<not> retryTimeout < now rt w2 - startTime \<Longrightarrow>
                  P (if 0 < attempt then backoff delay else delay) (attempt + 1)
                    ((if 0 < attempt then tr @ [Log InfoLevel, Sleep delay] else tr)
                       @ [CallAddReceipt requestID receipt ov, Log ErrorLevel]) w2 y \<Longrightarrow>
                  P delay attempt tr w y"
  shows "P delay attempt tr w y"
proof -
  have "rt' = rt \<and> r' = r \<and> requestID' = requestID \<and> receipt' = receipt \<and> ov' = ov
          \<and> startTime' = startTime \<and> retryTimeout' = retryTimeout
        \<longrightarrow> P delay' attempt' tr' w' y'"
    if "writeReceiptLoop rt' r' requestID' receipt' ov' startTime' retryTimeout' delay' attempt'
          tr' w' = Some y'"
    for rt' r' requestID' receipt' ov' startTime' retryTimeout' delay' attempt' tr' w' y'
    using that
  proof (rule writeReceiptLoop.raw_induct
          [where P = "\<lambda>rt' r' requestID' receipt' ov' startTime' retryTimeout' delay' attempt'
                        tr' w' y'.
             rt' = rt \<and> r' = r \<and> requestID' = requestID \<and> receipt' = receipt \<and> ov' = ov
               \<and> startTime' = startTime \<and> retryTimeout' = retryTimeout
             \<longrightarrow> P delay' attempt' tr' w' y'", rotated], goal_cases)
    case (1 loop rt' r' requestID' receipt' ov' startTime' retryTimeout' delay' attempt' tr' w' y')
    show ?case
    proof (intro impI, elim conjE)
      assume eq: "rt' = rt" "r' = r" "requestID' = requestID" "receipt' = receipt" "ov' = ov"
        "startTime' = startTime" "retryTimeout' = retryTimeout"
      note body = "1"(2) [unfolded eq Let_def]
      show "P delay' attempt' tr' w' y'"
      proof (cases "persistence r")
        case None
        with body nil [OF None] show ?thesis by auto
      next
        case (Some p)
        obtain e w2 where a: "AddReceipt p requestID receipt ov
            (if 0 < attempt' then sleep rt delay' w' else w') = (e, w2)"
          by (cases "AddReceipt p requestID receipt ov
            (if 0 < attempt' then sleep rt delay' w' else w')")
        show ?thesis
        proof (cases e)
          case None
          with body Some a break [OF Some] show ?thesis by auto
        next
          case (Some err)
          note e = this
          show ?thesis
          proof (cases ov)
            case False
            with body \<open>persistence r = Some p\<close> a e
              return [OF \<open>persistence r = Some p\<close>]
            show ?thesis by auto
          next
            case True
            show ?thesis
            proof (cases "retryTimeout < now rt w2 - startTime")
              case True
              with body \<open>persistence r = Some p\<close> a e \<open>ov\<close>
                panic [OF \<open>persistence r = Some p\<close>]
              show ?thesis by auto
            next
              case False
              with body \<open>persistence r = Some p\<close> a e \<open>ov\<close>
              have "loop rt r requestID receipt ov startTime retryTimeout
                      (if 0 < attempt' then backoff delay' else delay') (attempt' + 1)
                      ((if 0 < attempt' then tr' @ [Log InfoLevel, Sleep delay'] else tr')
                         @ [CallAddReceipt requestID receipt ov, Log ErrorLevel]) w2 = Some y'"
                by auto
              from "1"(1) [OF this] eq
              have "P (if 0 < attempt' then backoff delay' else delay') (attempt' + 1)
                      ((if 0 < attempt' then tr' @ [Log InfoLevel, Sleep delay'] else tr')
                         @ [CallAddReceipt requestID receipt ov, Log ErrorLevel]) w2 y'"
                by simp
              from retry [OF \<open>persistence r = Some p\<close> _ \<open>ov\<close> False this] a e
              show ?thesis by simp
            qed
          qed
        qed
      qed
    qed
  qed
  from this [OF run] show ?thesis by simp
qed


lemma writeReceiptLoop_exit:
  assumes "writeReceiptLoop rt r requestID receipt ov startTime retryTimeout delay attempt
             tr w = Some y"
      and "persistence r = Some p"
  shows "case y of (exit, tr', w') \<Rightarrow>
          (case exit of
             Break \<Rightarrow> (\<exists>w1. AddReceipt p requestID receipt ov w1 = (None, w'))
                        \<and> (\<exists>tr0. tr' = tr0 @ [CallAddReceipt requestID receipt ov, Log InfoLevel])
           | ReturnErr err \<Rightarrow>
               \<not> ov \<and> (\<exists>w1. AddReceipt p requestID receipt ov w1 = (Some err, w'))
           | Panicf \<Rightarrow>
               ov \<and> (\<exists>w1 err. AddReceipt p requestID receipt ov w1 = (Some err, w'))
                  \<and> retryTimeout < now rt w' - startTime)"
  using assms
proof (induction rule: writeReceiptLoop_induct)
  case (break delay attempt tr w p' w2)
  then show ?case by auto
next
  case (return delay attempt tr w p' err w2)
  then show ?case by auto
next
  case (panic delay attempt tr w p' err w2)
  then show ?case by auto
qed auto

lemma writeReceiptLoop_trace:
  assumes "writeReceiptLoop rt r requestID receipt ov startTime retryTimeout delay attempt
             tr w = Some y"
      and "persistence r = Some p"
  shows "\<exists>ev. fst (snd y) = tr @ ev
           \<and> list_all (writeEvent requestID receipt ov) ev
           \<and> 1 \<le> addCalls ev
           \<and> sleepsOf ev = map (\<lambda>k. (backoff ^^ k) delay)
                              [0 ..< addCalls ev - (if attempt = 0 then 1 else 0)]"
  using assms
proof (induction rule: writeReceiptLoop_induct)
  case (nil delay attempt tr w)
  then show ?case by simp
next
  case (break delay attempt tr w p' w2)
  then show ?case by (simp add: writeEvent_def)
next
  case (return delay attempt tr w p' err w2)
  then show ?case by (simp add: writeEvent_def)
next
  case (panic delay attempt tr w p' err w2)
  then show ?case by (simp add: writeEvent_def)
next
  case (retry delay attempt tr w p' err w2 y)
  from retry.IH [OF retry.prems] obtain ev where
    ev: "fst (snd y) = ((if 0 < attempt then tr @ [Log InfoLevel, Sleep delay] else tr)
                          @ [CallAddReceipt requestID receipt ov, Log ErrorLevel]) @ ev"
    and w: "list_all (writeEvent requestID receipt ov) ev"
    and n: "1 \<le> addCalls ev"
    and s: "sleepsOf ev = map (\<lambda>k. (backoff ^^ k) (if 0 < attempt then backoff delay else delay))
                            [0 ..< addCalls ev]"
    by auto
  show ?case
  proof (cases "0 < attempt")
    case True
    let ?ev = "[Log InfoLevel, Sleep delay, CallAddReceipt requestID receipt ov, Log ErrorLevel] @ ev"
    have "sleepsOf ?ev = delay # map (\<lambda>k. (backoff ^^ k) (backoff delay)) [0 ..< addCalls ev]"
      using s True by simp
    also have "\<dots> = map (\<lambda>k. (backoff ^^ k) delay) [0 ..< Suc (addCalls ev)]"
      by (rule map_funpow_Cons)
    finally have "sleepsOf ?ev = map (\<lambda>k. (backoff ^^ k) delay)
                    [0 ..< addCalls ?ev - (if attempt = 0 then 1 else 0)]"
      using True by simp
    moreover have "fst (snd y) = tr @ ?ev" using ev True by simp
    moreover have "list_all (writeEvent requestID receipt ov) ?ev"
      using w by (simp add: writeEvent_def)
    moreover have "1 \<le> addCalls ?ev" by simp
    ultimately show ?thesis by blast
  next
    case False
    let ?ev = "[CallAddReceipt requestID receipt ov, Log ErrorLevel] @ ev"
    have "sleepsOf ?ev = map (\<lambda>k. (backoff ^^ k) delay)
                    [0 ..< addCalls ?ev - (if attempt = 0 then 1 else 0)]"
      using s False by simp
    moreover have "fst (snd y) = tr @ ?ev" using ev False by simp
    moreover have "list_all (writeEvent requestID receipt ov) ?ev"
      using w by (simp add: writeEvent_def)
    moreover have "1 \<le> addCalls ?ev" by simp
    ultimately show ?thesis by blast
  qed
qed

text \<open>
  The loop ends when a sleep lasts at least its duration, the clock does not run
  backwards during \<^verbatim>\<open>AddReceipt\<close> and the delay is positive: every retry moves the clock
  by at least a nanosecond towards the deadline.
\<close>

lemma writeReceiptLoop_terminates_retry:
  assumes slp: "\<forall>d w. now rt w + d \<le> now rt (sleep rt d w)"
      and add: "\<forall>i rc b w. now rt w \<le> now rt (snd (AddReceipt p i rc b w))"
      and p: "persistence r = Some p"
  shows "1 \<le> delay \<Longrightarrow> 0 < attempt \<Longrightarrow> nat (startTime + retryTimeout + 1 - now rt w) \<le> k
           \<Longrightarrow> \<exists>y. writeReceiptLoop rt r requestID receipt ov startTime retryTimeout delay
                       attempt tr w = Some y"
proof (induction k arbitrary: delay attempt tr w)
  case 0
  obtain e w2 where a: "AddReceipt p requestID receipt ov (sleep rt delay w) = (e, w2)"
    by (cases "AddReceipt p requestID receipt ov (sleep rt delay w)")
  have "now rt w + delay \<le> now rt (sleep rt delay w)" using slp by blast
  moreover have "now rt (sleep rt delay w) \<le> now rt w2"
    using add [rule_format, of "sleep rt delay w" requestID receipt ov] a by simp
  ultimately have "retryTimeout < now rt w2 - startTime" using 0 by simp
  with a p 0 show ?case
    by (subst writeReceiptLoop.simps) (simp add: Let_def split: option.splits)
next
  case (Suc k)
  obtain e w2 where a: "AddReceipt p requestID receipt ov (sleep rt delay w) = (e, w2)"
    by (cases "AddReceipt p requestID receipt ov (sleep rt delay w)")
  have "now rt w + delay \<le> now rt (sleep rt delay w)" using slp by blast
  moreover have "now rt (sleep rt delay w) \<le> now rt w2"
    using add [rule_format, of "sleep rt delay w" requestID receipt ov] a by simp
  ultimately have step: "now rt w + 1 \<le> now rt w2" using Suc.prems by simp
  show ?case
  proof (cases "e \<noteq> None \<and> ov \<and> \<not> retryTimeout < now rt w2 - startTime")
    case False
    with a p Suc.prems show ?thesis
      by (subst writeReceiptLoop.simps) (auto simp: Let_def split: option.splits)
  next
    case True
    then have "nat (startTime + retryTimeout + 1 - now rt w2) \<le> k"
      using step Suc.prems by simp
    from Suc.IH [OF backoff_pos [OF Suc.prems(1)] _ this, of "attempt + 1"
        "tr @ [Log InfoLevel, Sleep delay] @ [CallAddReceipt requestID receipt ov, Log ErrorLevel]"]
    obtain y where "writeReceiptLoop rt r requestID receipt ov startTime retryTimeout
        (backoff delay) (attempt + 1)
        (tr @ [Log InfoLevel, Sleep delay] @ [CallAddReceipt requestID receipt ov, Log ErrorLevel])
        w2 = Some y" by auto
    moreover obtain x t v where "y = (x, t, v)" by (cases y)
    ultimately show ?thesis
      using a p True Suc.prems
      by (subst writeReceiptLoop.simps) (auto simp: Let_def split: option.splits)
  qed
qed

lemma writeReceiptLoop_terminates:
  assumes slp: "\<forall>d w. now rt w + d \<le> now rt (sleep rt d w)"
      and add: "\<forall>i rc b w. now rt w \<le> now rt (snd (AddReceipt p i rc b w))"
      and p: "persistence r = Some p"
      and d: "1 \<le> delay"
  shows "\<exists>y. writeReceiptLoop rt r requestID receipt ov startTime retryTimeout delay 0 [] w
               = Some y"
proof -
  obtain e w2 where a: "AddReceipt p requestID receipt ov w = (e, w2)"
    by (cases "AddReceipt p requestID receipt ov w")
  show ?thesis
  proof (cases "e \<noteq> None \<and> ov \<and> \<not> retryTimeout < now rt w2 - startTime")
    case False
    with a p show ?thesis
      by (subst writeReceiptLoop.simps) (auto simp: Let_def split: option.splits)
  next
    case True
    from writeReceiptLoop_terminates_retry [OF slp add p d, of 1 startTime retryTimeout w2
        "nat (startTime + retryTimeout + 1 - now rt w2)" requestID receipt ov
        "[CallAddReceipt requestID receipt ov, Log ErrorLevel]"]
    obtain y where "writeReceiptLoop rt r requestID receipt ov startTime retryTimeout delay 1
        [CallAddReceipt requestID receipt ov, Log ErrorLevel] w2 = Some y" by auto
    moreover obtain x t v where "y = (x, t, v)" by (cases y)
    ultimately show ?thesis
      using a p True
      by (subst writeReceiptLoop.simps) (auto simp: Let_def split: option.splits)
  qed
qed


lemma writeReceipt_cases:
  assumes "writeReceipt rt r requestID receipt ov w = Some (res, tr, w')"
  obtains (loop) exit tr0 w0 where
    "writeReceiptLoop rt r requestID receipt ov (now rt w)
       (RetryTimeoutMS (conf r) * Millisecond) (RetryInitialDelayMS (conf r) * Millisecond)
       0 [] w = Some (exit, tr0, w0)"
    "res = (case exit of Break \<Rightarrow> Returns None | ReturnErr err \<Rightarrow> Returns (Some err)
            | Panicf \<Rightarrow> Panics)"
    "tr = (case exit of
             Break \<Rightarrow> (case smartContractGW r of None \<Rightarrow> tr0
                        | Some gw \<Rightarrow> tr0 @ [CallSendReply receipt])
           | _ \<Rightarrow> tr0)"
    "w' = (case exit of
             Break \<Rightarrow> (case smartContractGW r of None \<Rightarrow> w0
                        | Some gw \<Rightarrow> SendReply gw receipt w0)
           | _ \<Rightarrow> w0)"
  using assms
  by (auto simp: writeReceipt_def Let_def split: option.splits loopExit.splits)

lemma writeReceipt_first_error:
  assumes "persistence r = Some p"
      and "AddReceipt p requestID receipt False w = (Some err, w2)"
  shows "writeReceipt rt r requestID receipt False w
           = Some (Returns (Some err), [CallAddReceipt requestID receipt False], w2)"
  using assms
  by (simp add: writeReceipt_def Let_def) (subst writeReceiptLoop.simps, simp)

lemma writeReceipt_overwrite:
  assumes run: "writeReceipt rt r requestID receipt True w = Some (res, tr, w')"
      and p: "persistence r = Some p"
  shows "(res = Returns None \<or> res = Panics)
       \<and> 1 \<le> addCalls tr
       \<and> sleepsOf tr = map (\<lambda>k. (backoff ^^ k) (RetryInitialDelayMS (conf r) * Millisecond))
                          [0 ..< addCalls tr - 1]
       \<and> (res = Returns None \<longrightarrow>
             (\<exists>w1 w2. AddReceipt p requestID receipt True w1 = (None, w2)
                \<and> w' = (case smartContractGW r of None \<Rightarrow> w2
                          | Some gw \<Rightarrow> SendReply gw receipt w2)))
       \<and> (res = Panics \<longrightarrow>
             (\<exists>w1 err. AddReceipt p requestID receipt True w1 = (Some err, w'))
             \<and> RetryTimeoutMS (conf r) * Millisecond < now rt w' - now rt w)"
  using run
proof (cases rule: writeReceipt_cases)
  case (loop exit tr0 w0)
  from writeReceiptLoop_exit [OF loop(1) p]
  have ex: "case exit of
          Break \<Rightarrow> (\<exists>w1. AddReceipt p requestID receipt True w1 = (None, w0))
        | ReturnErr err \<Rightarrow> False
        | Panicf \<Rightarrow> (\<exists>w1 err. AddReceipt p requestID receipt True w1 = (Some err, w0))
                     \<and> RetryTimeoutMS (conf r) * Millisecond < now rt w0 - now rt w"
    by (auto split: loopExit.splits)
  from writeReceiptLoop_trace [OF loop(1) p]
  have tr0: "1 \<le> addCalls tr0"
    "sleepsOf tr0 = map (\<lambda>k. (backoff ^^ k) (RetryInitialDelayMS (conf r) * Millisecond))
                      [0 ..< addCalls tr0 - 1]"
    by auto
  have s: "sleepsOf tr = sleepsOf tr0" and a: "addCalls tr = addCalls tr0"
    using loop(3) by (auto simp: sleepsOf_append addCalls_append split: loopExit.splits option.splits)
  show ?thesis
    using ex tr0 loop(2,4) unfolding s a
    by (cases exit) auto
qed

lemma writeReceipt_terminates:
  assumes slp: "\<forall>d w. now rt w + d \<le> now rt (sleep rt d w)"
      and add: "\<forall>i rc b w. now rt w \<le> now rt (snd (AddReceipt p i rc b w))"
      and p: "persistence r = Some p"
      and d: "0 < RetryInitialDelayMS (conf r)"
  shows "\<exists>y. writeReceipt rt r requestID receipt ov w = Some y"
proof -
  have "1 \<le> RetryInitialDelayMS (conf r) * Millisecond"
    using d by (simp add: Millisecond_def)
  from writeReceiptLoop_terminates [OF slp add p this]
  obtain y where "writeReceiptLoop rt r requestID receipt ov (now rt w)
       (RetryTimeoutMS (conf r) * Millisecond) (RetryInitialDelayMS (conf r) * Millisecond)
       0 [] w = Some y" by blast
  then show ?thesis
    by (cases y) (auto simp: writeReceipt_def Let_def split: loopExit.splits option.splits)
qed

text \<open>
  C3. With a persistence tier: when \<open>overwriteAndRetry\<close> is false and the first
  \<^verbatim>\<open>AddReceipt\<close> fails, \<^verbatim>\<open>writeReceipt\<close> returns that error after this one attempt, with
  no sleep. When it is true, a call that ends has returned nil or panicked, never an error;
  it slept between the attempts, first for the configured initial delay and then each
  time for the last delay times 1.1 (cut to whole nanoseconds); it returned nil after an
  attempt that succeeded; and it panicked after an attempt that failed with more than the
  configured timeout gone since the start. The call does end when sleeps last at least
  their duration, the clock does not run backwards and the initial delay is positive.
  \<^verbatim>\<open>newReceiptStore\<close> puts 500 ms and 120 s in place of an initial delay and a timeout
  that are not positive.
\<close>

theorem writeReceipt_retry:
  assumes p: "persistence r = Some p"
  shows "(\<forall>err w2. AddReceipt p requestID receipt False w = (Some err, w2) \<longrightarrow>
            writeReceipt rt r requestID receipt False w
              = Some (Returns (Some err), [CallAddReceipt requestID receipt False], w2))
       \<and> (\<forall>res tr w'. writeReceipt rt r requestID receipt True w = Some (res, tr, w') \<longrightarrow>
            (res = Returns None \<or> res = Panics)
            \<and> 1 \<le> addCalls tr
            \<and> sleepsOf tr = map (\<lambda>k. (backoff ^^ k) (RetryInitialDelayMS (conf r) * Millisecond))
                               [0 ..< addCalls tr - 1]
            \<and> (res = Returns None \<longrightarrow>
                  (\<exists>w1 w2. AddReceipt p requestID receipt True w1 = (None, w2)
                     \<and> w' = (case smartContractGW r of None \<Rightarrow> w2
                               | Some gw \<Rightarrow> SendReply gw receipt w2)))
            \<and> (res = Panics \<longrightarrow>
                  (\<exists>w1 err. AddReceipt p requestID receipt True w1 = (Some err, w'))
                  \<and> RetryTimeoutMS (conf r) * Millisecond < now rt w' - now rt w))
       \<and> ((\<forall>d w. now rt w + d \<le> now rt (sleep rt d w))
            \<and> (\<forall>i rc b w. now rt w \<le> now rt (snd (AddReceipt p i rc b w)))
            \<and> 0 < RetryInitialDelayMS (conf r) \<longrightarrow>
          (\<exists>y. writeReceipt rt r requestID receipt True w = Some y))
       \<and> RetryInitialDelayMS (conf (newReceiptStore c (Some p) gw))
            = (if RetryInitialDelayMS c \<le> 0 then 500 else RetryInitialDelayMS c)
       \<and> RetryTimeoutMS (conf (newReceiptStore c (Some p) gw))
            = (if RetryTimeoutMS c \<le> 0 then 120000 else RetryTimeoutMS c)
       \<and> backoff (500 * Millisecond) = 550 * Millisecond"
proof (intro conjI allI impI)
  fix err w2
  assume "AddReceipt p requestID receipt False w = (Some err, w2)"
  from writeReceipt_first_error [OF p this]
  show "writeReceipt rt r requestID receipt False w
          = Some (Returns (Some err), [CallAddReceipt requestID receipt False], w2)" .
next
  fix res tr w'
  assume run: "writeReceipt rt r requestID receipt True w = Some (res, tr, w')"
  note * = writeReceipt_overwrite [OF run p]
  from * show "res = Returns None \<or> res = Panics" by blast
  from * show "1 \<le> addCalls tr" by blast
  from * show "sleepsOf tr = map (\<lambda>k. (backoff ^^ k) (RetryInitialDelayMS (conf r) * Millisecond))
                               [0 ..< addCalls tr - 1]" by blast
  { assume "res = Returns None"
    with * show "\<exists>w1 w2. AddReceipt p requestID receipt True w1 = (None, w2)
                   \<and> w' = (case smartContractGW r of None \<Rightarrow> w2
                             | Some gw \<Rightarrow> SendReply gw receipt w2)" by blast }
  { assume "res = Panics"
    with * show "\<exists>w1 err. AddReceipt p requestID receipt True w1 = (Some err, w')"
      and "RetryTimeoutMS (conf r) * Millisecond < now rt w' - now rt w" by blast+ }
next
  assume "(\<forall>d w. now rt w + d \<le> now rt (sleep rt d w))
            \<and> (\<forall>i rc b w. now rt w \<le> now rt (snd (AddReceipt p i rc b w)))
            \<and> 0 < RetryInitialDelayMS (conf r)"
  then show "\<exists>y. writeReceipt rt r requestID receipt True w = Some y"
    using writeReceipt_terminates [OF _ _ p] by blast
next
  show "RetryInitialDelayMS (conf (newReceiptStore c (Some p) gw))
            = (if RetryInitialDelayMS c \<le> 0 then 500 else RetryInitialDelayMS c)"
    by (simp add: newReceiptStore_def Let_def defaultRetryInitialDelay_def)
  show "RetryTimeoutMS (conf (newReceiptStore c (Some p) gw))
            = (if RetryTimeoutMS c \<le> 0 then 120000 else RetryTimeoutMS c)"
    by (simp add: newReceiptStore_def Let_def defaultRetryTimeout_def)
  show "backoff (500 * Millisecond) = 550 * Millisecond"
    by (simp add: backoff_nonneg Millisecond_def)
qed



lemma demo_run_retry:
  "writeReceipt demoRuntime demoStore ''req-1'' demoReceipt True (demoWorld0\<lparr>failing := 2\<rparr>)
     = Some (Returns None,
          [CallAddReceipt ''req-1'' demoReceipt True, Log ErrorLevel,
           Log InfoLevel, Sleep 500000000,
           CallAddReceipt ''req-1'' demoReceipt True, Log ErrorLevel,
           Log InfoLevel, Sleep 550000000,
           CallAddReceipt ''req-1'' demoReceipt True, Log InfoLevel,
           CallSendReply demoReceipt],
          demoWorld0\<lparr>clock := 1053000000,
            stored := \<lparr>mconf = demoConf, receipts = demoReceipt # receipts demoMemory\<rparr>,
            replies := [demoReceipt]\<rparr>)"
  unfolding writeReceipt_def
  apply (subst writeReceiptLoop.simps)
  apply (simp add: run_defs)
  apply (subst writeReceiptLoop.simps)
  apply (simp add: run_defs)
  apply (subst writeReceiptLoop.simps)
  apply (simp add: run_defs)
  done

lemma demo_run_panic:
  "writeReceipt demoRuntime demoStore ''req-1'' demoReceipt True
       (demoWorld0\<lparr>failing := 5, writeTime := 1000000000\<rparr>)
     = Some (Panics,
          [CallAddReceipt ''req-1'' demoReceipt True, Log ErrorLevel,
           Log InfoLevel, Sleep 500000000,
           CallAddReceipt ''req-1'' demoReceipt True, Log ErrorLevel, Log InfoLevel],
          demoWorld0\<lparr>failing := 3, writeTime := 1000000000, clock := 2500000000\<rparr>)"
  unfolding writeReceipt_def
  apply (subst writeReceiptLoop.simps)
  apply (simp add: run_defs)
  apply (subst writeReceiptLoop.simps)
  apply (simp add: run_defs)
  done

lemma demo_clock:
  "\<forall>d w. now demoRuntime w + d \<le> now demoRuntime (sleep demoRuntime d w)"
  "\<forall>i rc b w. now demoRuntime w \<le> now demoRuntime (snd (AddReceipt demoPersistence i rc b w))"
  by (simp_all add: demoRuntime_def demoPersistence_def)

theorem writeReceipt_retry_witness:
  "persistence demoStore = Some demoPersistence
   \<and> AddReceipt demoPersistence ''req-1'' demoReceipt False (demoWorld0\<lparr>failing := 2\<rparr>)
       = (Some (Foreign ''write failed''), demoWorld0\<lparr>failing := 1, clock := 1000000\<rparr>)
   \<and> writeReceipt demoRuntime demoStore ''req-1'' demoReceipt False (demoWorld0\<lparr>failing := 2\<rparr>)
       = Some (Returns (Some (Foreign ''write failed'')),
               [CallAddReceipt ''req-1'' demoReceipt False],
               demoWorld0\<lparr>failing := 1, clock := 1000000\<rparr>)
   \<and> writeReceipt demoRuntime demoStore ''req-1'' demoReceipt True (demoWorld0\<lparr>failing := 2\<rparr>)
       = Some (Returns None,
          [CallAddReceipt ''req-1'' demoReceipt True, Log ErrorLevel,
           Log InfoLevel, Sleep 500000000,
           CallAddReceipt ''req-1'' demoReceipt True, Log ErrorLevel,
           Log InfoLevel, Sleep 550000000,
           CallAddReceipt ''req-1'' demoReceipt True, Log InfoLevel,
           CallSendReply demoReceipt],
          demoWorld0\<lparr>clock := 1053000000,
            stored := \<lparr>mconf = demoConf, receipts = demoReceipt # receipts demoMemory\<rparr>,
            replies := [demoReceipt]\<rparr>)
   \<and> map (\<lambda>k. (backoff ^^ k) (RetryInitialDelayMS (conf demoStore) * Millisecond)) [0 ..< 2]
       = [500000000, 550000000]
   \<and> writeReceipt demoRuntime demoStore ''req-1'' demoReceipt True
         (demoWorld0\<lparr>failing := 5, writeTime := 1000000000\<rparr>)
       = Some (Panics,
          [CallAddReceipt ''req-1'' demoReceipt True, Log ErrorLevel,
           Log InfoLevel, Sleep 500000000,
           CallAddReceipt ''req-1'' demoReceipt True, Log ErrorLevel, Log InfoLevel],
          demoWorld0\<lparr>failing := 3, writeTime := 1000000000, clock := 2500000000\<rparr>)
   \<and> RetryTimeoutMS (conf demoStore) * Millisecond < 2500000000 - 0
   \<and> 0 < RetryInitialDelayMS (conf demoStore)
   \<and> (\<exists>y. writeReceipt demoRuntime demoStore ''req-1'' demoReceipt True
              (demoWorld0\<lparr>failing := 200\<rparr>) = Some y)"
proof -
  have p: "persistence demoStore = Some demoPersistence"
    by (simp add: demo_defs)
  have a: "AddReceipt demoPersistence ''req-1'' demoReceipt False (demoWorld0\<lparr>failing := 2\<rparr>)
       = (Some (Foreign ''write failed''), demoWorld0\<lparr>failing := 1, clock := 1000000\<rparr>)"
    by (simp add: demo_defs)
  have d: "0 < RetryInitialDelayMS (conf demoStore)"
    by (simp add: demo_defs)
  have t: "RetryTimeoutMS (conf demoStore) * Millisecond < 2500000000 - 0"
    by (simp add: demo_defs Millisecond_def)
  have s: "map (\<lambda>k. (backoff ^^ k) (RetryInitialDelayMS (conf demoStore) * Millisecond)) [0 ..< 2]
       = [500000000, 550000000]"
    by (simp add: run_defs upt_rec numeral_2_eq_2 del: upt_Suc)
  note thm1 = writeReceipt_retry [OF p, of "''req-1''" demoReceipt "demoWorld0\<lparr>failing := 2\<rparr>"
      demoRuntime]
  note thm2 = writeReceipt_retry [OF p, of "''req-1''" demoReceipt "demoWorld0\<lparr>failing := 200\<rparr>"
      demoRuntime]
  from thm1 a have f: "writeReceipt demoRuntime demoStore ''req-1'' demoReceipt False
        (demoWorld0\<lparr>failing := 2\<rparr>)
       = Some (Returns (Some (Foreign ''write failed'')),
               [CallAddReceipt ''req-1'' demoReceipt False],
               demoWorld0\<lparr>failing := 1, clock := 1000000\<rparr>)"
    by blast
  from thm2 demo_clock d have e: "\<exists>y. writeReceipt demoRuntime demoStore ''req-1'' demoReceipt True
              (demoWorld0\<lparr>failing := 200\<rparr>) = Some y"
    by blast
  from p a f s t d e demo_run_retry demo_run_panic show ?thesis by blast
qed


section \<open>The reply sent to the gateway\<close>

lemma writeReceipt_nil:
  assumes run: "writeReceipt rt r requestID receipt ov w = Some (Returns None, tr, w')"
      and gw: "smartContractGW r = Some gw"
  shows "\<exists>tr0 w0. tr = tr0 @ [CallSendReply receipt] \<and> w' = SendReply gw receipt w0
           \<and> (\<exists>p w1. persistence r = Some p
                  \<and> AddReceipt p requestID receipt ov w1 = (None, w0))"
  using run
proof (cases rule: writeReceipt_cases)
  case (loop exit tr0 w0)
  from loop(2) have exit: "exit = Break" by (cases exit) auto
  have "persistence r \<noteq> None"
  proof
    assume "persistence r = None"
    with loop(1) exit show False
      by (subst (asm) writeReceiptLoop.simps) (simp add: Let_def)
  qed
  then obtain p where p: "persistence r = Some p" by auto
  from writeReceiptLoop_exit [OF loop(1) p] exit
  obtain w1 where "AddReceipt p requestID receipt ov w1 = (None, w0)" by auto
  with loop(3,4) exit gw p show ?thesis by auto
qed

text \<open>
  C10. With a gateway configured, every call of \<^verbatim>\<open>writeReceipt\<close> that returns nil, with
  \<open>overwriteAndRetry\<close> true or false, ends with the call of \<^verbatim>\<open>SendReply\<close> on the receipt
  it wrote. So does \<^verbatim>\<open>writeAccepted\<close>, whose receipt is the pending one: it holds
  \<^verbatim>\<open>pending = true\<close> and the id of the message, and was stored without overwrite.
\<close>

theorem writeReceipt_SendReply:
  assumes gw: "smartContractGW r = Some gw"
  shows "(\<forall>tr w'. writeReceipt rt r requestID receipt ov w = Some (Returns None, tr, w') \<longrightarrow>
            (\<exists>tr0 w0. tr = tr0 @ [CallSendReply receipt] \<and> w' = SendReply gw receipt w0))
       \<and> (\<forall>tr w'. writeAccepted rt r msgID msgAck msg w = Some (Returns None, tr, w') \<longrightarrow>
            (\<exists>accepted tr0 w0.
               tr = tr0 @ [CallSendReply accepted] \<and> w' = SendReply gw accepted w0
               \<and> map_of accepted ''pending'' = Some (GBool True)
               \<and> map_of accepted ''_id'' = Some (GString msgID)
               \<and> (\<exists>p w1. persistence r = Some p
                      \<and> AddReceipt p msgID accepted False w1 = (None, w0))))"
proof (intro conjI allI impI)
  fix tr w'
  assume "writeReceipt rt r requestID receipt ov w = Some (Returns None, tr, w')"
  from writeReceipt_nil [OF this gw]
  show "\<exists>tr0 w0. tr = tr0 @ [CallSendReply receipt] \<and> w' = SendReply gw receipt w0"
    by blast
next
  fix tr w'
  let ?accepted = "AList.update ''_id'' (GString msgID)
      (AList.update ''msgAck'' (GString msgAck)
        (AList.update ''pending'' (GBool True)
          (AList.update ''receivedAt'' (GInt64 (now rt w sdiv Millisecond)) msg)))"
  assume "writeAccepted rt r msgID msgAck msg w = Some (Returns None, tr, w')"
  then have "writeReceipt rt r msgID ?accepted False w = Some (Returns None, tr, w')"
    by (simp add: writeAccepted_def Let_def)
  from writeReceipt_nil [OF this gw]
  obtain tr0 w0 p w1 where "tr = tr0 @ [CallSendReply ?accepted]"
    "w' = SendReply gw ?accepted w0" "persistence r = Some p"
    "AddReceipt p msgID ?accepted False w1 = (None, w0)"
    by blast
  moreover have "map_of ?accepted ''pending'' = Some (GBool True)"
    "map_of ?accepted ''_id'' = Some (GString msgID)"
    by (simp_all add: map_of_update)
  ultimately show "\<exists>accepted tr0 w0.
               tr = tr0 @ [CallSendReply accepted] \<and> w' = SendReply gw accepted w0
               \<and> map_of accepted ''pending'' = Some (GBool True)
               \<and> map_of accepted ''_id'' = Some (GString msgID)
               \<and> (\<exists>p w1. persistence r = Some p
                      \<and> AddReceipt p msgID accepted False w1 = (None, w0))"
    by blast
qed

lemma demo_run_accepted:
  "writeAccepted demoRuntime demoStore ''req-1'' ''ack-1'' [] demoWorld0
     = Some (Returns None,
          [CallAddReceipt ''req-1''
             demoAccepted False,
           Log InfoLevel,
           CallSendReply
             demoAccepted],
          demoWorld0\<lparr>clock := 1000000,
            stored := \<lparr>mconf = demoConf,
                       receipts = demoAccepted
                                  # receipts demoMemory\<rparr>,
            replies := [demoAccepted]\<rparr>)"
  unfolding writeAccepted_def writeReceipt_def
  apply (subst writeReceiptLoop.simps)
  apply (simp add: run_defs Let_def demoAccepted_def)
  done

theorem writeReceipt_SendReply_witness:
  "smartContractGW demoStore = Some demoGateway
   \<and> writeAccepted demoRuntime demoStore ''req-1'' ''ack-1'' [] demoWorld0
     = Some (Returns None,
          [CallAddReceipt ''req-1'' demoAccepted False, Log InfoLevel,
           CallSendReply demoAccepted],
          demoWorld0\<lparr>clock := 1000000,
            stored := \<lparr>mconf = demoConf, receipts = demoAccepted # receipts demoMemory\<rparr>,
            replies := [demoAccepted]\<rparr>)
   \<and> map_of demoAccepted ''pending'' = Some (GBool True)
   \<and> (\<exists>w0. SendReply demoGateway demoAccepted w0 =
               demoWorld0\<lparr>clock := 1000000,
                 stored := \<lparr>mconf = demoConf, receipts = demoAccepted # receipts demoMemory\<rparr>,
                 replies := [demoAccepted]\<rparr>)"
proof -
  have g: "smartContractGW demoStore = Some demoGateway"
    by (simp add: demo_defs)
  from writeReceipt_SendReply [OF g, of demoRuntime "''req-1''" demoReceipt True demoWorld0
      "''req-1''" "''ack-1''" "[]"] demo_run_accepted
  obtain accepted tr0 w0 where
    tr: "[CallAddReceipt ''req-1'' demoAccepted False, Log InfoLevel, CallSendReply demoAccepted]
           = tr0 @ [CallSendReply accepted]"
    and w: "demoWorld0\<lparr>clock := 1000000,
              stored := \<lparr>mconf = demoConf, receipts = demoAccepted # receipts demoMemory\<rparr>,
              replies := [demoAccepted]\<rparr> = SendReply demoGateway accepted w0"
    and m: "map_of accepted ''pending'' = Some (GBool True)"
    by blast
  have "last [CallAddReceipt ''req-1'' demoAccepted False, Log InfoLevel,
              CallSendReply demoAccepted] = last (tr0 @ [CallSendReply accepted])"
    using tr by simp
  then have "accepted = demoAccepted" by simp
  with g demo_run_accepted w m show ?thesis by metis
qed

section \<open>Replies that report a prevented redelivery\<close>

lemma distinct_msgTypes:
  "MsgTypeTransactionRedeliveryPrevented \<noteq> MsgTypeError"
  "MsgTypeTransactionRedeliveryPrevented \<noteq> MsgTypeTransactionSuccess"
  by (simp_all add: MsgTypeError_def MsgTypeTransactionSuccess_def
        MsgTypeTransactionRedeliveryPrevented_def)




text \<open>
  C4. Let a reply carry a request id and the type of a prevented redelivery, and let the
  persistence tier hold for that id no receipt, or one that is not terminal. Then
  \<^verbatim>\<open>processReply\<close> is the call of \<^verbatim>\<open>writeReceipt\<close> with overwrite on a receipt that
  carries the code and the text of \<^verbatim>\<open>ResubmissionPreventedCheckTransactionHash\<close> as
  \<^verbatim>\<open>errorCode\<close> and \<^verbatim>\<open>errorMessage\<close>, the \<^verbatim>\<open>transactionHash\<close> of the reply and the
  request id as \<^verbatim>\<open>_id\<close>; when \<^verbatim>\<open>processReply\<close> returns, \<^verbatim>\<open>AddReceipt\<close> has stored that
  receipt.
\<close>

theorem processReply_redelivery_pending:
  assumes "unmarshal rt msgBytes = Inr parsedMsg"
      and "extractHeaders parsedMsg = Some headers"
      and "GetMapString headers ''requestId'' = requestID" and "requestID \<noteq> []"
      and "GetMapString headers ''type'' = MsgTypeTransactionRedeliveryPrevented"
      and p: "persistence r = Some p"
      and "GetReceipt p requestID w = Inr existing"
      and "case existing of None \<Rightarrow> True
           | Some existingReceipt \<Rightarrow> \<not> isTerminalReceipt existingReceipt"
  shows "\<exists>receipt.
           map_of receipt ''errorCode''
             = Some (GString (Code rt ResubmissionPreventedCheckTransactionHash))
         \<and> map_of receipt ''errorMessage''
             = Some (GString (ErrorNoCode rt ResubmissionPreventedCheckTransactionHash))
         \<and> map_of receipt ''transactionHash'' = map_of parsedMsg ''transactionHash''
         \<and> map_of receipt ''_id'' = Some (GString requestID)
         \<and> processReply rt r msgBytes w =
             (case writeReceipt rt r requestID receipt True w of
                None \<Rightarrow> None
              | Some (res, tr, w') \<Rightarrow>
                  Some (case res of Panics \<Rightarrow> Panics | Returns e \<Rightarrow> Returns (),
                        CallGetReceipt requestID # Log InfoLevel # tr, w'))
         \<and> (\<forall>tr w'. processReply rt r msgBytes w = Some (Returns (), tr, w') \<longrightarrow>
               (\<exists>w1 w2. AddReceipt p requestID receipt True w1 = (None, w2)
                  \<and> w' = (case smartContractGW r of None \<Rightarrow> w2
                            | Some gw \<Rightarrow> SendReply gw receipt w2)))"
proof -
  let ?m1 = "AList.update ''errorMessage''
               (GString (ErrorNoCode rt ResubmissionPreventedCheckTransactionHash))
               (AList.update ''errorCode''
                  (GString (Code rt ResubmissionPreventedCheckTransactionHash)) parsedMsg)"
  let ?receipt = "AList.update ''_id'' (GString requestID)
                    (AList.update ''receivedAt'' (GInt64 (now rt w sdiv Millisecond)) ?m1)"
  have sw: "switchMsgType rt r parsedMsg requestID MsgTypeTransactionRedeliveryPrevented w
              = (Returns (Some ?m1), [CallGetReceipt requestID])"
    using assms(6-8)
    by (auto simp: switchMsgType_def distinct_msgTypes split: option.splits)
  have pd: "postDeploy rt r msgBytes MsgTypeTransactionRedeliveryPrevented c w = ([], w)" for c
    by (simp add: postDeploy_def distinct_msgTypes split: option.splits)
  have run: "processReply rt r msgBytes w =
             (case writeReceipt rt r requestID ?receipt True w of
                None \<Rightarrow> None
              | Some (res, tr, w') \<Rightarrow>
                  Some (case res of Panics \<Rightarrow> Panics | Returns e \<Rightarrow> Returns (),
                        CallGetReceipt requestID # Log InfoLevel # tr, w'))"
    using assms(1-5) p
    by (auto simp: processReply_def sw pd Let_def split: option.splits outcome.splits)
  have fin: "\<exists>w1 w2. AddReceipt p requestID ?receipt True w1 = (None, w2)
                  \<and> w' = (case smartContractGW r of None \<Rightarrow> w2
                            | Some gw \<Rightarrow> SendReply gw ?receipt w2)"
    if "processReply rt r msgBytes w = Some (Returns (), tr, w')" for tr w'
  proof -
    from that run obtain res tr2 where
      wr: "writeReceipt rt r requestID ?receipt True w = Some (res, tr2, w')"
      and res: "res \<noteq> Panics"
      by (auto split: option.splits outcome.splits)
    from writeReceipt_overwrite [OF wr p] res show ?thesis by blast
  qed
  have "map_of ?receipt ''errorCode''
             = Some (GString (Code rt ResubmissionPreventedCheckTransactionHash))"
    "map_of ?receipt ''errorMessage''
             = Some (GString (ErrorNoCode rt ResubmissionPreventedCheckTransactionHash))"
    "map_of ?receipt ''transactionHash'' = map_of parsedMsg ''transactionHash''"
    "map_of ?receipt ''_id'' = Some (GString requestID)"
    by (simp_all add: map_of_update)
  with run fin show ?thesis by blast
qed


lemma demo_run_redelivery:
  "processReply demoRuntime demoStore msgRedelivery demoWorld0
     = Some (Returns (),
         [CallGetReceipt ''req-4'', Log InfoLevel,
          CallAddReceipt ''req-4'' demoRedeliveryReceipt True, Log InfoLevel,
          CallSendReply demoRedeliveryReceipt],
         demoWorld0\<lparr>clock := 1000000,
           stored := \<lparr>mconf = demoConf, receipts = demoRedeliveryReceipt # receipts demoMemory\<rparr>,
           replies := [demoRedeliveryReceipt]\<rparr>)"
  unfolding processReply_def writeReceipt_def switchMsgType_def postDeploy_def
  apply (subst writeReceiptLoop.simps)
  apply (simp add: run_defs msg_defs demoMessages_def msgRedelivery_def msgHeadersString_def
           msgNoRequestId_def demoRedeliveryReceipt_def memoryReceipts_GetReceipt_def Let_def)
  done

theorem processReply_redelivery_pending_witness:
  "GetReceipt demoPersistence ''req-4'' demoWorld0 = Inr None
   \<and> processReply demoRuntime demoStore msgRedelivery demoWorld0
     = Some (Returns (),
         [CallGetReceipt ''req-4'', Log InfoLevel,
          CallAddReceipt ''req-4'' demoRedeliveryReceipt True, Log InfoLevel,
          CallSendReply demoRedeliveryReceipt],
         demoWorld0\<lparr>clock := 1000000,
           stored := \<lparr>mconf = demoConf, receipts = demoRedeliveryReceipt # receipts demoMemory\<rparr>,
           replies := [demoRedeliveryReceipt]\<rparr>)
   \<and> map_of demoRedeliveryReceipt ''errorCode''
       = Some (GString (Code demoRuntime ResubmissionPreventedCheckTransactionHash))
   \<and> map_of demoRedeliveryReceipt ''errorMessage''
       = Some (GString (ErrorNoCode demoRuntime ResubmissionPreventedCheckTransactionHash))
   \<and> map_of demoRedeliveryReceipt ''transactionHash'' = Some (GString ''0xdead'')
   \<and> (\<exists>receipt w1 w2.
         map_of receipt ''errorCode''
           = Some (GString (Code demoRuntime ResubmissionPreventedCheckTransactionHash))
         \<and> AddReceipt demoPersistence ''req-4'' receipt True w1 = (None, w2)
         \<and> SendReply demoGateway receipt w2 =
             demoWorld0\<lparr>clock := 1000000,
               stored := \<lparr>mconf = demoConf,
                          receipts = demoRedeliveryReceipt # receipts demoMemory\<rparr>,
               replies := [demoRedeliveryReceipt]\<rparr>)"
proof -
  let ?parsed = "[(''headers'', GMap [(''requestId'', GString ''req-4''),
                           (''type'', GString ''transaction-redelivery-prevented'')]),
        (''transactionHash'', GString ''0xdead'')]"
  let ?headers = "[(''requestId'', GString ''req-4''),
                   (''type'', GString ''transaction-redelivery-prevented'')]"
  have 1: "unmarshal demoRuntime msgRedelivery = Inr ?parsed"
    by (simp add: demo_defs)
  have 2: "extractHeaders ?parsed = Some ?headers"
    by (simp add: msg_defs)
  have 3: "GetMapString ?headers ''requestId'' = ''req-4''" and 4: "''req-4'' \<noteq> []"
    by (simp_all add: msg_defs)
  have 5: "GetMapString ?headers ''type'' = MsgTypeTransactionRedeliveryPrevented"
    by (simp add: msg_defs)
  have 6: "persistence demoStore = Some demoPersistence"
    by (simp add: demo_defs)
  have 7: "GetReceipt demoPersistence ''req-4'' demoWorld0 = Inr None"
    by (simp add: demo_defs memoryReceipts_GetReceipt_def)
  have 8: "case None of None \<Rightarrow> True
           | Some existingReceipt \<Rightarrow> \<not> isTerminalReceipt existingReceipt"
    by simp
  have g: "smartContractGW demoStore = Some demoGateway"
    by (simp add: demo_defs)
  from processReply_redelivery_pending [OF 1 2 3 4 5 6 7 8] demo_run_redelivery g
  have "\<exists>receipt w1 w2.
         map_of receipt ''errorCode''
           = Some (GString (Code demoRuntime ResubmissionPreventedCheckTransactionHash))
         \<and> AddReceipt demoPersistence ''req-4'' receipt True w1 = (None, w2)
         \<and> SendReply demoGateway receipt w2 =
             demoWorld0\<lparr>clock := 1000000,
               stored := \<lparr>mconf = demoConf,
                          receipts = demoRedeliveryReceipt # receipts demoMemory\<rparr>,
               replies := [demoRedeliveryReceipt]\<rparr>"
    by (elim exE conjE) (metis option.simps(5))
  moreover have "map_of demoRedeliveryReceipt ''errorCode''
       = Some (GString (Code demoRuntime ResubmissionPreventedCheckTransactionHash))"
    "map_of demoRedeliveryReceipt ''errorMessage''
       = Some (GString (ErrorNoCode demoRuntime ResubmissionPreventedCheckTransactionHash))"
    "map_of demoRedeliveryReceipt ''transactionHash'' = Some (GString ''0xdead'')"
    by (simp_all add: demoRedeliveryReceipt_def demoRuntime_def)
  ultimately show ?thesis using 7 demo_run_redelivery by blast
qed

section \<open>Replies that are dropped, and panics\<close>

lemma processReply_panics:
  assumes run: "processReply rt r msgBytes w = Some (Panics, tr, w')"
      and p: "persistence r = Some p"
  shows "\<exists>requestID receipt msgType contractAddr w1 err.
           AddReceipt p requestID receipt True w1 = (Some err, w')
           \<and> RetryTimeoutMS (conf r) * Millisecond
               < now rt w' - now rt (snd (postDeploy rt r msgBytes msgType contractAddr w))"
proof -
  have sw: "switchMsgType rt r m i t w \<noteq> (Panics, tr0)" for m i t tr0
    using p by (auto simp: switchMsgType_def split: sum.splits option.splits)
  from run p obtain requestID receipt msgType contractAddr tr2 where
    "writeReceipt rt r requestID receipt True
       (snd (postDeploy rt r msgBytes msgType contractAddr w)) = Some (Panics, tr2, w')"
    unfolding processReply_def Let_def
    by (auto simp: sw split: sum.splits option.splits if_splits prod.splits outcome.splits)
       (metis snd_conv)
  from writeReceipt_overwrite [OF this p] show ?thesis by blast
qed



lemma processReply_terminates:
  assumes slp: "\<forall>d w. now rt w + d \<le> now rt (sleep rt d w)"
      and add: "\<forall>i rc b w. now rt w \<le> now rt (snd (AddReceipt p i rc b w))"
      and p: "persistence r = Some p"
      and d: "0 < RetryInitialDelayMS (conf r)"
  shows "\<exists>y. processReply rt r msgBytes w = Some y"
proof -
  have "\<exists>y. (case writeReceipt rt r i rc True w0 of
               None \<Rightarrow> None
             | Some (Panics, tr2, w2) \<Rightarrow> Some (Panics, f tr2, w2)
             | Some (Returns e, tr2, w2) \<Rightarrow> Some (Returns (), f tr2, w2)) = Some y"
    for i rc w0 and f :: "event list \<Rightarrow> event list"
    using writeReceipt_terminates [OF slp add p d, of i rc True w0]
    by (auto split: outcome.splits)
  then show ?thesis
    unfolding processReply_def Let_def
    by (auto split: sum.splits option.splits prod.splits outcome.splits)
qed

lemma processReply_dropped:
  "unmarshal rt msgBytes = Inl err \<Longrightarrow>
     processReply rt r msgBytes w = Some (Returns (), [Log ErrorLevel], w)"
  "unmarshal rt msgBytes = Inr parsedMsg \<Longrightarrow>
     \<forall>headers. map_of parsedMsg ''headers'' \<noteq> Some (GMap headers) \<Longrightarrow>
     processReply rt r msgBytes w = Some (Returns (), [Log ErrorLevel], w)"
  "unmarshal rt msgBytes = Inr parsedMsg \<Longrightarrow>
     map_of parsedMsg ''headers'' = Some (GMap headers) \<Longrightarrow>
     \<forall>s. s \<noteq> [] \<longrightarrow> map_of headers ''requestId'' \<noteq> Some (GString s) \<Longrightarrow>
     processReply rt r msgBytes w = Some (Returns (), [Log ErrorLevel], w)"
proof -
  show "processReply rt r msgBytes w = Some (Returns (), [Log ErrorLevel], w)"
    if "unmarshal rt msgBytes = Inl err"
    using that by (simp add: processReply_def)
  show "processReply rt r msgBytes w = Some (Returns (), [Log ErrorLevel], w)"
    if "unmarshal rt msgBytes = Inr parsedMsg"
      and "\<forall>headers. map_of parsedMsg ''headers'' \<noteq> Some (GMap headers)"
  proof -
    have "extractHeaders parsedMsg = None"
      using that(2) by (auto simp: extractHeaders_def split: option.splits gvalue.splits)
    with that(1) show ?thesis by (simp add: processReply_def)
  qed
  show "processReply rt r msgBytes w = Some (Returns (), [Log ErrorLevel], w)"
    if "unmarshal rt msgBytes = Inr parsedMsg"
      and "map_of parsedMsg ''headers'' = Some (GMap headers)"
      and "\<forall>s. s \<noteq> [] \<longrightarrow> map_of headers ''requestId'' \<noteq> Some (GString s)"
  proof -
    have "extractHeaders parsedMsg = Some headers"
      using that(2) by (simp add: extractHeaders_def)
    moreover have "GetMapString headers ''requestId'' = []"
      using that(3) by (auto simp: GetMapString_def split: option.splits gvalue.splits)
    ultimately show ?thesis using that(1) by (simp add: processReply_def)
  qed
qed

text \<open>
  C8, as the code has it, for \<^verbatim>\<open>processReply\<close> of the receipt store. The reply is dropped
  with one error log, nothing is written and the world is as before when the bytes are
  not valid JSON, when the parsed object has no \<^verbatim>\<open>headers\<close> entry that is an object, and
  when \<^verbatim>\<open>headers.requestId\<close> is absent, not a string, or empty. With a persistence tier,
  a call panics only out of \<^verbatim>\<open>writeReceipt\<close>: after an \<^verbatim>\<open>AddReceipt\<close> that failed with
  more than the configured timeout gone since the write began. The call ends when sleeps
  last at least their duration, the clock does not run backwards and the initial delay is
  positive.
\<close>

theorem processReply_contained:
  "(\<forall>err. unmarshal rt msgBytes = Inl err \<longrightarrow>
      processReply rt r msgBytes w = Some (Returns (), [Log ErrorLevel], w))
   \<and> (\<forall>parsedMsg. unmarshal rt msgBytes = Inr parsedMsg
         \<and> (\<forall>headers. map_of parsedMsg ''headers'' \<noteq> Some (GMap headers)) \<longrightarrow>
      processReply rt r msgBytes w = Some (Returns (), [Log ErrorLevel], w))
   \<and> (\<forall>parsedMsg headers. unmarshal rt msgBytes = Inr parsedMsg
         \<and> map_of parsedMsg ''headers'' = Some (GMap headers)
         \<and> (\<forall>s. s \<noteq> [] \<longrightarrow> map_of headers ''requestId'' \<noteq> Some (GString s)) \<longrightarrow>
      processReply rt r msgBytes w = Some (Returns (), [Log ErrorLevel], w))
   \<and> (\<forall>p tr w'. persistence r = Some p
         \<and> processReply rt r msgBytes w = Some (Panics, tr, w') \<longrightarrow>
      (\<exists>requestID receipt msgType contractAddr w1 err.
         AddReceipt p requestID receipt True w1 = (Some err, w')
         \<and> RetryTimeoutMS (conf r) * Millisecond
             < now rt w' - now rt (snd (postDeploy rt r msgBytes msgType contractAddr w))))
   \<and> (\<forall>p. persistence r = Some p
         \<and> (\<forall>d w. now rt w + d \<le> now rt (sleep rt d w))
         \<and> (\<forall>i rc b w. now rt w \<le> now rt (snd (AddReceipt p i rc b w)))
         \<and> 0 < RetryInitialDelayMS (conf r) \<longrightarrow>
      (\<exists>y. processReply rt r msgBytes w = Some y))"
proof (intro conjI allI impI)
  fix err
  assume "unmarshal rt msgBytes = Inl err"
  then show "processReply rt r msgBytes w = Some (Returns (), [Log ErrorLevel], w)"
    by (rule processReply_dropped(1))
next
  fix parsedMsg
  assume a: "unmarshal rt msgBytes = Inr parsedMsg
         \<and> (\<forall>headers. map_of parsedMsg ''headers'' \<noteq> Some (GMap headers))"
  from a have 1: "unmarshal rt msgBytes = Inr parsedMsg" by (rule conjunct1)
  from a have 2: "\<forall>headers. map_of parsedMsg ''headers'' \<noteq> Some (GMap headers)"
    by (rule conjunct2)
  from 1 2 show "processReply rt r msgBytes w = Some (Returns (), [Log ErrorLevel], w)"
    by (rule processReply_dropped(2))
next
  fix parsedMsg headers
  assume a: "unmarshal rt msgBytes = Inr parsedMsg
         \<and> map_of parsedMsg ''headers'' = Some (GMap headers)
         \<and> (\<forall>s. s \<noteq> [] \<longrightarrow> map_of headers ''requestId'' \<noteq> Some (GString s))"
  from a have 1: "unmarshal rt msgBytes = Inr parsedMsg" by (rule conjunct1)
  from a have 2: "map_of parsedMsg ''headers'' = Some (GMap headers)"
    by (rule conjunct2 [THEN conjunct1])
  from a have 3: "\<forall>s. s \<noteq> [] \<longrightarrow> map_of headers ''requestId'' \<noteq> Some (GString s)"
    by (rule conjunct2 [THEN conjunct2])
  from 1 2 3 show "processReply rt r msgBytes w = Some (Returns (), [Log ErrorLevel], w)"
    by (rule processReply_dropped(3))
next
  fix p tr w'
  assume a: "persistence r = Some p \<and> processReply rt r msgBytes w = Some (Panics, tr, w')"
  from a have 1: "processReply rt r msgBytes w = Some (Panics, tr, w')" by (rule conjunct2)
  from a have 2: "persistence r = Some p" by (rule conjunct1)
  from 1 2 show "\<exists>requestID receipt msgType contractAddr w1 err.
         AddReceipt p requestID receipt True w1 = (Some err, w')
         \<and> RetryTimeoutMS (conf r) * Millisecond
             < now rt w' - now rt (snd (postDeploy rt r msgBytes msgType contractAddr w))"
    by (rule processReply_panics)
next
  fix p
  assume a: "persistence r = Some p
         \<and> (\<forall>d w. now rt w + d \<le> now rt (sleep rt d w))
         \<and> (\<forall>i rc b w. now rt w \<le> now rt (snd (AddReceipt p i rc b w)))
         \<and> 0 < RetryInitialDelayMS (conf r)"
  from a have 1: "persistence r = Some p" by (rule conjunct1)
  from a have 2: "\<forall>d w. now rt w + d \<le> now rt (sleep rt d w)"
    by (rule conjunct2 [THEN conjunct1])
  from a have 3: "\<forall>i rc b w. now rt w \<le> now rt (snd (AddReceipt p i rc b w))"
    by (rule conjunct2 [THEN conjunct2, THEN conjunct1])
  from a have 4: "0 < RetryInitialDelayMS (conf r)"
    by (rule conjunct2 [THEN conjunct2, THEN conjunct2])
  from 2 3 1 4 show "\<exists>y. processReply rt r msgBytes w = Some y"
    by (rule processReply_terminates)
qed

lemma demo_run_deadline:
  "processReply demoRuntime demoStore msgSuccess
       (demoWorld0\<lparr>failing := 1, writeTime := 3000000000\<rparr>)
     = Some (Panics,
         [Log InfoLevel, CallAddReceipt ''req-4'' demoSuccessReceipt True,
          Log ErrorLevel, Log InfoLevel],
         demoWorld0\<lparr>failing := 0, writeTime := 3000000000, clock := 3000000000\<rparr>)"
  unfolding processReply_def writeReceipt_def switchMsgType_def postDeploy_def
  apply (subst writeReceiptLoop.simps)
  apply (simp add: run_defs msg_defs demoMessages_def msgRedelivery_def msgHeadersString_def
           msgNoRequestId_def msgSuccess_def demoSuccessReceipt_def Let_def)
  done

text \<open>
  C8 as stated fails: a well-formed success reply for \<^verbatim>\<open>req-4\<close>, processed while the
  persistence tier fails and takes three seconds to do so (the timeout is two), makes
  \<^verbatim>\<open>processReply\<close> panic.
\<close>

theorem processReply_deadline_panic:
  "processReply demoRuntime demoStore msgSuccess
       (demoWorld0\<lparr>failing := 1, writeTime := 3000000000\<rparr>)
     = Some (Panics,
         [Log InfoLevel, CallAddReceipt ''req-4'' demoSuccessReceipt True,
          Log ErrorLevel, Log InfoLevel],
         demoWorld0\<lparr>failing := 0, writeTime := 3000000000, clock := 3000000000\<rparr>)"
  by (rule demo_run_deadline)

text \<open>
  The reply processor of the webhooks bridge drops a reply that is not valid JSON or has
  no \<^verbatim>\<open>headers\<close> entry, writing nothing. On a \<^verbatim>\<open>headers\<close> entry that is not an object it
  panics in the type assertion, and on a null \<^verbatim>\<open>requestId\<close> in \<^verbatim>\<open>getString\<close>.
\<close>

lemma kldwebhooks_processReply_dropped:
  "(\<forall>err. unmarshal rt msgBytes = Inl err \<longrightarrow>
      kldwebhooks_processReply rt wb msgBytes w = (Returns (), [Log ErrorLevel], w))
   \<and> (\<forall>parsedMsg. unmarshal rt msgBytes = Inr parsedMsg
         \<and> map_of parsedMsg ''headers'' = None \<longrightarrow>
      kldwebhooks_processReply rt wb msgBytes w = (Returns (), [Log ErrorLevel], w))"
  by (simp add: kldwebhooks_processReply_def)

lemma kldwebhooks_processReply_panics:
  assumes "unmarshal rt msgBytes = Inr parsedMsg"
      and "map_of parsedMsg ''headers'' = Some v"
  shows "(\<forall>headers. v \<noteq> GMap headers) \<Longrightarrow>
           kldwebhooks_processReply rt wb msgBytes w = (Panics, [], w)"
    and "v = GMap headers \<Longrightarrow> map_of headers ''requestId'' = Some GNil \<Longrightarrow>
           kldwebhooks_processReply rt wb msgBytes w = (Panics, [Log InfoLevel], w)"
  using assms
  by (auto simp: kldwebhooks_processReply_def readReply_def getString_def split: gvalue.splits)

lemma kldwebhooks_processReply_headers_not_map:
  "kldwebhooks_processReply demoRuntime \<lparr>mongo = None\<rparr> msgHeadersString demoWorld0
     = (Panics, [], demoWorld0)"
  by (simp add: kldwebhooks_processReply_def demo_defs)

theorem processReply_contained_witness:
  "unmarshal demoRuntime ''not json'' = Inl (Foreign ''invalid character'')
   \<and> processReply demoRuntime demoStore ''not json'' demoWorld0
       = Some (Returns (), [Log ErrorLevel], demoWorld0)
   \<and> unmarshal demoRuntime msgHeadersString = Inr [(''headers'', GString ''x'')]
   \<and> processReply demoRuntime demoStore msgHeadersString demoWorld0
       = Some (Returns (), [Log ErrorLevel], demoWorld0)
   \<and> unmarshal demoRuntime msgNoRequestId
       = Inr [(''headers'', GMap [(''type'', GString ''error'')])]
   \<and> processReply demoRuntime demoStore msgNoRequestId demoWorld0
       = Some (Returns (), [Log ErrorLevel], demoWorld0)
   \<and> (\<exists>requestID receipt w1 err.
         AddReceipt demoPersistence requestID receipt True w1
           = (Some err, demoWorld0\<lparr>failing := 0, writeTime := 3000000000, clock := 3000000000\<rparr>))
   \<and> (\<exists>y. processReply demoRuntime demoStore msgSuccess (demoWorld0\<lparr>failing := 200\<rparr>) = Some y)"
proof -
  have p: "persistence demoStore = Some demoPersistence"
    by (simp add: demo_defs)
  have d: "0 < RetryInitialDelayMS (conf demoStore)"
    by (simp add: demo_defs)
  have u1: "unmarshal demoRuntime ''not json'' = Inl (Foreign ''invalid character'')"
    by (simp add: demo_defs)
  have u2: "unmarshal demoRuntime msgHeadersString = Inr [(''headers'', GString ''x'')]"
    by (simp add: demo_defs)
  have h2: "\<forall>headers. map_of [(''headers'', GString ''x'')] ''headers'' \<noteq> Some (GMap headers)"
    by simp
  have u3: "unmarshal demoRuntime msgNoRequestId
       = Inr [(''headers'', GMap [(''type'', GString ''error'')])]"
    by (simp add: demo_defs)
  have h3: "map_of [(''headers'', GMap [(''type'', GString ''error'')])] ''headers''
              = Some (GMap [(''type'', GString ''error'')])"
    by simp
  have r3: "\<forall>s. s \<noteq> [] \<longrightarrow> map_of [(''type'', GString ''error'')] ''requestId'' \<noteq> Some (GString s)"
    by simp
  from processReply_contained
         [of demoRuntime "''not json''" demoStore demoWorld0, THEN conjunct1, rule_format, OF u1]
  have a: "processReply demoRuntime demoStore ''not json'' demoWorld0
       = Some (Returns (), [Log ErrorLevel], demoWorld0)" .
  from processReply_contained
         [of demoRuntime msgHeadersString demoStore demoWorld0,
          THEN conjunct2, THEN conjunct1, rule_format, OF conjI [OF u2 h2]]
  have b: "processReply demoRuntime demoStore msgHeadersString demoWorld0
       = Some (Returns (), [Log ErrorLevel], demoWorld0)" .
  from processReply_contained
         [of demoRuntime msgNoRequestId demoStore demoWorld0,
          THEN conjunct2, THEN conjunct2, THEN conjunct1, rule_format,
          OF conjI [OF u3 conjI [OF h3 r3]]]
  have c: "processReply demoRuntime demoStore msgNoRequestId demoWorld0
       = Some (Returns (), [Log ErrorLevel], demoWorld0)" .
  from processReply_contained
         [of demoRuntime msgSuccess demoStore "demoWorld0\<lparr>failing := 1, writeTime := 3000000000\<rparr>",
          THEN conjunct2, THEN conjunct2, THEN conjunct2, THEN conjunct1, rule_format,
          OF conjI [OF p demo_run_deadline]]
  obtain requestID receipt w1 err where
    "AddReceipt demoPersistence requestID receipt True w1
       = (Some err, demoWorld0\<lparr>failing := 0, writeTime := 3000000000, clock := 3000000000\<rparr>)"
    by (elim exE conjE)
  then have e: "\<exists>requestID receipt w1 err.
         AddReceipt demoPersistence requestID receipt True w1
           = (Some err, demoWorld0\<lparr>failing := 0, writeTime := 3000000000, clock := 3000000000\<rparr>)"
    by (intro exI)
  from processReply_contained
         [of demoRuntime msgSuccess demoStore "demoWorld0\<lparr>failing := 200\<rparr>",
          THEN conjunct2, THEN conjunct2, THEN conjunct2, THEN conjunct2, rule_format,
          OF conjI [OF p conjI [OF demo_clock(1) conjI [OF demo_clock(2) d]]]]
  have f: "\<exists>y. processReply demoRuntime demoStore msgSuccess
      (demoWorld0\<lparr>failing := 200\<rparr>) = Some y" .
  from u1 a u2 b u3 c e f show ?thesis by (intro conjI)
qed

end
